theory Spec2Isabelle
  imports Main
begin

section \<open>Python strings\<close>

text \<open>
  A Python \<open>str\<close> is a sequence of Unicode code points. It is modelled as a list of
  natural numbers, one per code point, so that \<open>strip\<close> and \<open>split\<close> see the same
  characters as the interpreter does (the ellipsis of a title is the single code point
  U+2026, and a no-break space is whitespace).
\<close>

type_synonym codepoint = nat
type_synonym pystr = "codepoint list"

definition lit :: "string \<Rightarrow> pystr" where
  \<comment> \<open>an ASCII literal of the source\<close>
  "lit s = map of_char s"

definition isspace :: "codepoint \<Rightarrow> bool" where
  \<comment> \<open>\<open>str.isspace\<close> on one character: the code points CPython treats as whitespace\<close>
  "isspace c \<longleftrightarrow>
     (9 \<le> c \<and> c \<le> 13) \<or> (28 \<le> c \<and> c \<le> 32) \<or> c = 133 \<or> c = 160 \<or> c = 5760 \<or>
     (8192 \<le> c \<and> c \<le> 8202) \<or> c = 8232 \<or> c = 8233 \<or> c = 8239 \<or> c = 8287 \<or> c = 12288"

definition strip :: "pystr \<Rightarrow> pystr" where
  \<comment> \<open>\<open>s.strip()\<close>: whitespace removed at both ends\<close>
  "strip s = rev (dropWhile isspace (rev (dropWhile isspace s)))"

fun split_acc :: "pystr \<Rightarrow> pystr \<Rightarrow> pystr list" where
  \<comment> \<open>the scan of \<open>s.split()\<close>: \<open>cur\<close> is the word being read\<close>
  "split_acc cur [] = (if cur = [] then [] else [cur])"
| "split_acc cur (c # cs) =
     (if isspace c then (if cur = [] then split_acc [] cs else cur # split_acc [] cs)
      else split_acc (cur @ [c]) cs)"

definition str_split :: "pystr \<Rightarrow> pystr list" where
  \<comment> \<open>\<open>s.split()\<close> with no separator: the maximal runs of non-whitespace\<close>
  "str_split s = split_acc [] s"

fun join :: "pystr \<Rightarrow> pystr list \<Rightarrow> pystr" where
  \<comment> \<open>\<open>sep.join(xs)\<close>\<close>
  "join sep [] = []"
| "join sep [x] = x"
| "join sep (x # y # ys) = x @ sep @ join sep (y # ys)"

definition last_n :: "nat \<Rightarrow> 'a list \<Rightarrow> 'a list" where
  \<comment> \<open>the slice \<open>xs[-n:]\<close> for \<open>n > 0\<close>: the start index \<open>len(xs) - n\<close> is clamped at 0\<close>
  "last_n n xs = drop (length xs - n) xs"

section \<open>Data model\<close>

type_synonym turn = "pystr \<times> pystr"

record conversation =
  conv_id :: pystr
  title :: pystr
  turns :: "turn list"

section \<open>Title of a conversation\<close>

definition ellipsis :: pystr where
  "ellipsis = [8230]"

definition extract_title_from_history :: "turn list \<Rightarrow> pystr" where
  "extract_title_from_history history =
     (case history of
        [] \<Rightarrow> lit ''New chat''
      | t # _ \<Rightarrow>
          (let first_user = strip (fst t) in
           if first_user = [] then lit ''New chat''
           else
             let words = str_split first_user;
                 short = join (lit '' '') (take 10 words)
             in short @ (if length words > 10 then ellipsis else [])))"

section \<open>The world outside the program\<close>

text \<open>
  The conversations file and the flat log are text files; the JSON library, the model
  backend, the id generator and the speech synthesiser are collaborators the program
  calls. Their behaviour during one call is collected in an environment, so that every
  function of the program stays a function: what a collaborator returns, and whether a
  read or a write of a file goes through, is read from the environment.
\<close>

datatype json =
    JScalar pystr  \<comment> \<open>\<open>null\<close>, a truth value or a number, kept as its literal\<close>
  | JStr pystr
  | JArr "json list"
  | JObj "(pystr \<times> json) list"

datatype exn = OSError | JSONDecodeError

datatype outcome =
    Succeeds
  | Fails "pystr option"  \<comment> \<open>the write raises; the argument is what it leaves at the path\<close>

record message =
  role :: pystr
  content :: pystr

record env =
  json_dump :: "json \<Rightarrow> pystr"  \<comment> \<open>text written by \<open>json.dump(v, f, ensure_ascii=False, indent=2)\<close>\<close>
  json_dumps :: "json \<Rightarrow> pystr"  \<comment> \<open>\<open>json.dumps(v, ensure_ascii=False)\<close>\<close>
  json_load :: "pystr \<Rightarrow> json option"  \<comment> \<open>\<open>json.load\<close> on a file's text; \<open>None\<close> when it raises\<close>
  conv_read_ok :: bool  \<comment> \<open>opening and reading the conversations file goes through\<close>
  conv_write :: outcome  \<comment> \<open>opening and writing the conversations file\<close>
  flat_write :: outcome  \<comment> \<open>opening and appending to the flat log\<close>
  ollama_chat :: "message list \<Rightarrow> pystr + pystr"
    \<comment> \<open>\<open>Inr\<close>: the reply's \<open>["message"]["content"]\<close>; \<open>Inl\<close>: the text of the exception raised\<close>
  uuid4 :: pystr  \<comment> \<open>\<open>str(uuid.uuid4())\<close>\<close>
  gtts_ok :: bool  \<comment> \<open>synthesis and saving of the audio file go through\<close>

record world =
  conversations :: "conversation list"  \<comment> \<open>the module-level list\<close>
  conv_file :: "pystr option"  \<comment> \<open>text at \<open>CONV_PATH\<close>; \<open>None\<close> when the path does not exist\<close>
  flat_file :: "pystr option"  \<comment> \<open>text at \<open>FLAT_PATH\<close>\<close>

section \<open>Data management\<close>

definition turn_list :: "turn \<Rightarrow> json" where
  \<comment> \<open>a turn as the program holds it: the two-element list \<open>[user, assistant]\<close>\<close>
  "turn_list t = JArr [JStr (fst t), JStr (snd t)]"

definition conv_dict :: "conversation \<Rightarrow> json" where
  \<comment> \<open>a conversation as the program holds it: the dict with keys \<open>id\<close>, \<open>title\<close>, \<open>turns\<close>\<close>
  "conv_dict c =
     JObj [(lit ''id'', JStr (conv_id c)), (lit ''title'', JStr (title c)),
           (lit ''turns'', JArr (map turn_list (turns c)))]"

definition load_try :: "env \<Rightarrow> pystr \<Rightarrow> exn + json list option" where
  \<comment> \<open>the body of the \<open>try\<close>: \<open>Inr (Some xs)\<close> returns \<open>xs\<close>, \<open>Inr None\<close> falls through\<close>
  "load_try E text =
     (if \<not> conv_read_ok E then Inl OSError
      else case json_load E text of
             None \<Rightarrow> Inl JSONDecodeError
           | Some data \<Rightarrow> (case data of JArr xs \<Rightarrow> Inr (Some xs) | _ \<Rightarrow> Inr None))"

definition load_conversations :: "env \<Rightarrow> world \<Rightarrow> exn + json list" where
  "load_conversations E w =
     (case conv_file w of
        None \<Rightarrow> Inr []
      | Some text \<Rightarrow>
          (case load_try E text of
             Inr (Some xs) \<Rightarrow> Inr xs
           | Inr None \<Rightarrow> Inr []
           | Inl e \<Rightarrow> Inr []))"

definition save_conversations :: "env \<Rightarrow> json list \<Rightarrow> world \<Rightarrow> world \<times> (exn + unit)" where
  "save_conversations E convs w =
     (case conv_write E of
        Succeeds \<Rightarrow> (w\<lparr>conv_file := Some (json_dump E (JArr convs))\<rparr>, Inr ())
      | Fails left \<Rightarrow> (w\<lparr>conv_file := left\<rparr>, Inl OSError))"

definition flat_record :: "pystr \<Rightarrow> pystr \<Rightarrow> json" where
  "flat_record user_text assistant_text =
     JObj [(lit ''instruction'', JStr user_text), (lit ''output'', JStr assistant_text)]"

definition log_flat_pair :: "env \<Rightarrow> pystr \<Rightarrow> pystr \<Rightarrow> world \<Rightarrow> world \<times> (exn + unit)" where
  "log_flat_pair E user_text assistant_text w =
     (if user_text = [] \<or> assistant_text = [] then (w, Inr ())
      else
        let rec = flat_record user_text assistant_text in
        case flat_write E of
          Succeeds \<Rightarrow>
            (w\<lparr>flat_file :=
                 Some ((case flat_file w of None \<Rightarrow> [] | Some old \<Rightarrow> old) @ json_dumps E rec @ [10])\<rparr>,
             Inr ())
        | Fails left \<Rightarrow> (w\<lparr>flat_file := left\<rparr>, Inl OSError))"

section \<open>Memory system\<close>

record mem_pair =
  instruction :: pystr
  output_text :: pystr

fun append_turns :: "turn list \<Rightarrow> mem_pair list \<Rightarrow> mem_pair list" where
  \<comment> \<open>the inner loop of \<open>all_memory_pairs\<close>\<close>
  "append_turns [] mem = mem"
| "append_turns (t # ts) mem =
     append_turns ts (mem @ [\<lparr>instruction = fst t, output_text = snd t\<rparr>])"

fun append_convs :: "conversation list \<Rightarrow> mem_pair list \<Rightarrow> mem_pair list" where
  \<comment> \<open>the outer loop\<close>
  "append_convs [] mem = mem"
| "append_convs (conv # convs) mem = append_convs convs (append_turns (turns conv) mem)"

definition all_memory_pairs :: "conversation list \<Rightarrow> mem_pair list" where
  "all_memory_pairs convs = append_convs convs []"

definition system_msg :: message where
  "system_msg =
     \<lparr>role = lit ''system'',
      content = lit ''You are JD, an AI Assistant created by Kunal Debnath Sir. '' @
                lit ''You remember previous chats and stay friendly and concise.''\<rparr>"

definition render_pair :: "mem_pair \<Rightarrow> pystr" where
  "render_pair p = lit ''User: '' @ instruction p @ [10] @ lit ''Assistant: '' @ output_text p"

definition memory_label :: pystr where
  "memory_label = lit ''Here is a summary of past conversation turns:'' @ [10, 10]"

definition build_messages_from_memory :: "conversation list \<Rightarrow> message list" where
  "build_messages_from_memory convs =
     (let mem_pairs = all_memory_pairs convs;
          mem_texts = map render_pair (last_n 50 mem_pairs);
          block = (if mem_texts \<noteq> [] then join [10, 10] mem_texts else [])
      in if block \<noteq> []
         then [system_msg, \<lparr>role = lit ''system'', content = memory_label @ block\<rparr>]
         else [system_msg])"

definition store_pairs :: "conversation list \<Rightarrow> mem_pair list" where
  \<comment> \<open>the specification's flattening: every conversation's turns, in store order\<close>
  "store_pairs convs =
     concat (map (\<lambda>c. map (\<lambda>t. \<lparr>instruction = fst t, output_text = snd t\<rparr>) (turns c)) convs)"

section \<open>Utilities and core logic\<close>

definition make_tts :: "env \<Rightarrow> pystr \<Rightarrow> pystr" where
  "make_tts E text =
     (if text = [] then []
      else if gtts_ok E then lit ''audio/jd_reply.mp3'' else [])"

fun session_messages :: "turn list \<Rightarrow> message list" where
  "session_messages [] = []"
| "session_messages (t # ts) =
     \<lparr>role = lit ''user'', content = fst t\<rparr> #
     \<lparr>role = lit ''assistant'', content = snd t\<rparr> # session_messages ts"

definition context_messages :: "conversation list \<Rightarrow> turn list \<Rightarrow> pystr \<Rightarrow> message list" where
  "context_messages convs ui_history user_input =
     build_messages_from_memory convs @ session_messages ui_history @
       [\<lparr>role = lit ''user'', content = user_input\<rparr>]"

definition get_answer :: "env \<Rightarrow> message list \<Rightarrow> pystr" where
  \<comment> \<open>the \<open>try\<close> around the backend call: an exception becomes the answer\<close>
  "get_answer E messages =
     (case ollama_chat E messages of
        Inr text \<Rightarrow> text
      | Inl e \<Rightarrow> lit ''Ollama error: '' @ e)"

definition new_conv :: "pystr \<Rightarrow> turn list \<Rightarrow> conversation" where
  "new_conv cid ui_history =
     \<lparr>conv_id = cid, title = extract_title_from_history ui_history, turns = ui_history\<rparr>"

fun update_existing :: "pystr \<Rightarrow> turn list \<Rightarrow> conversation list \<Rightarrow> conversation list option" where
  \<comment> \<open>the loop over the conversations with its \<open>found\<close> flag: \<open>None\<close> when no id matches\<close>
  "update_existing cid ui_history [] = None"
| "update_existing cid ui_history (conv # convs) =
     (if conv_id conv = cid
      then Some (conv\<lparr>turns := ui_history, title := extract_title_from_history ui_history\<rparr> # convs)
      else case update_existing cid ui_history convs of
             None \<Rightarrow> None
           | Some convs' \<Rightarrow> Some (conv # convs'))"

definition update_or_create ::
  "env \<Rightarrow> turn list \<Rightarrow> pystr option \<Rightarrow> conversation list \<Rightarrow> pystr \<times> conversation list" where
  "update_or_create E ui_history cid convs =
     (case cid of
        None \<Rightarrow> (uuid4 E, convs @ [new_conv (uuid4 E) ui_history])
      | Some c \<Rightarrow>
          (case update_existing c ui_history convs of
             Some convs' \<Rightarrow> (c, convs')
           | None \<Rightarrow> (uuid4 E, convs @ [new_conv (uuid4 E) ui_history])))"

type_synonym reply = "turn list \<times> pystr option \<times> pystr option \<times> pystr list"

definition jd_reply_core ::
  "env \<Rightarrow> pystr \<Rightarrow> bool \<Rightarrow> turn list \<Rightarrow> pystr option \<Rightarrow> world \<Rightarrow> world \<times> (exn + reply)" where
  "jd_reply_core E user_input0 speak ui_history0 cid0 w =
     (let user_input = strip user_input0 in
      if user_input = []
      then (w, Inr (ui_history0, None, cid0, map title (conversations w)))
      else
        let messages = context_messages (conversations w) ui_history0 user_input;
            answer = get_answer E messages;
            ui_history = ui_history0 @ [(user_input, answer)];
            (cid, convs) = update_or_create E ui_history cid0 (conversations w);
            w1 = w\<lparr>conversations := convs\<rparr>;
            (w2, saved) = save_conversations E (map conv_dict convs) w1
        in case saved of
             Inl e \<Rightarrow> (w2, Inl e)
           | Inr _ \<Rightarrow>
               let (w3, logged) = log_flat_pair E user_input answer w2
               in case logged of
                    Inl e \<Rightarrow> (w3, Inl e)
                  | Inr _ \<Rightarrow>
                      (w3, Inr (ui_history,
                                if speak then Some (make_tts E answer) else None,
                                Some cid, map title convs)))"

definition updated_history :: "env \<Rightarrow> conversation list \<Rightarrow> turn list \<Rightarrow> pystr \<Rightarrow> turn list" where
  \<comment> \<open>the session turns after the new pair has been appended\<close>
  "updated_history E convs ui_history user_input =
     ui_history @
       [(strip user_input, get_answer E (context_messages convs ui_history (strip user_input)))]"

fun find_by_title :: "pystr \<Rightarrow> conversation list \<Rightarrow> turn list \<times> pystr option" where
  \<comment> \<open>the scan of \<open>load_conversation_by_title\<close>\<close>
  "find_by_title t [] = ([], None)"
| "find_by_title t (conv # convs) =
     (if title conv = t then (turns conv, Some (conv_id conv)) else find_by_title t convs)"

definition load_conversation_by_title :: "conversation list \<Rightarrow> pystr \<Rightarrow> turn list \<times> pystr option" where
  "load_conversation_by_title convs t = (if t = [] then ([], None) else find_by_title t convs)"

definition on_select_topic :: "conversation list \<Rightarrow> pystr option \<Rightarrow> turn list \<times> pystr option" where
  \<comment> \<open>the handler of the topic list; its value is a title or \<open>None\<close>\<close>
  "on_select_topic convs topic_title =
     (case topic_title of
        None \<Rightarrow> ([], None)
      | Some t \<Rightarrow>
          if t = [] then ([], None)
          else let (full_turns, cid) = load_conversation_by_title convs t
               in (last_n 5 full_turns, cid))"

section \<open>A scripted environment for the examples\<close>

text \<open>
  The examples below run the program against collaborators with a fixed script: a JSON
  library that writes the compact rendering of a value and reads back the renderings of
  the documents it is given, a backend that is down, an id generator that returns
  \<open>u1\<close>, and files that can be read and written.
\<close>

fun json_text :: "json \<Rightarrow> pystr" where
  "json_text (JScalar s) = s"
| "json_text (JStr s) = [34] @ s @ [34]"
| "json_text (JArr xs) = lit ''['' @ join (lit '', '') (map json_text xs) @ lit '']''"
| "json_text (JObj kvs) =
     lit ''{'' @
     join (lit '', '') (map (\<lambda>(k, v). [34] @ k @ [34] @ lit '': '' @ json_text v) kvs) @
     lit ''}''"

definition read_back :: "json list \<Rightarrow> pystr \<Rightarrow> json option" where
  "read_back docs = map_of (map (\<lambda>v. (json_text v, v)) docs)"

definition example_env :: "json list \<Rightarrow> env" where
  "example_env docs =
     \<lparr>json_dump = json_text, json_dumps = json_text, json_load = read_back docs,
      conv_read_ok = True, conv_write = Succeeds, flat_write = Succeeds,
      ollama_chat = (\<lambda>_. Inl (lit ''down'')), uuid4 = lit ''u1'', gtts_ok = True\<rparr>"

definition dq :: "string \<Rightarrow> pystr" where
  \<comment> \<open>an ASCII literal between double quotes\<close>
  "dq s = [34] @ lit s @ [34]"

definition empty_world :: world where
  "empty_world = \<lparr>conversations = [], conv_file = None, flat_file = None\<rparr>"

definition two_convs :: "conversation list" where
  "two_convs =
     [\<lparr>conv_id = lit ''u1'', title = lit ''Hi'', turns = [(lit ''Hi'', lit ''Hello'')]\<rparr>,
      \<lparr>conv_id = lit ''u2'', title = lit ''Bye'', turns = [(lit ''Bye'', lit ''See you'')]\<rparr>]"

definition long_conv :: conversation where
  "long_conv = \<lparr>conv_id = lit ''u1'', title = lit ''0'',
                 turns = map (\<lambda>i. ([48 + i], [65 + i])) [0..<60]\<rparr>"

definition failing_log_env :: env where
  "failing_log_env = (example_env [])\<lparr>flat_write := Fails None\<rparr>"

definition silent_env :: env where
  "silent_env = (example_env [])\<lparr>flat_write := Fails None, ollama_chat := (\<lambda>_. Inr [])\<rparr>"

definition first_conv :: conversation where
  "first_conv =
     \<lparr>conv_id = lit ''u1'', title = lit ''Hi'', turns = [(lit ''Hi'', lit ''Ollama error: down'')]\<rparr>"

section \<open>Properties of the string operations\<close>

lemma split_acc_lead: "split_acc [] (dropWhile isspace s) = split_acc [] s"
  by (induction s) auto

lemma split_acc_spaces: "\<forall>c\<in>set ws. isspace c \<Longrightarrow> split_acc [] ws = []"
  by (induction ws) auto

lemma split_acc_trail:
  "\<forall>c\<in>set ws. isspace c \<Longrightarrow> split_acc cur (s @ ws) = split_acc cur s"
proof (induction s arbitrary: cur)
  case Nil
  show ?case
  proof (cases ws)
    case Nil
    then show ?thesis by simp
  next
    case (Cons c cs)
    with Nil.prems have "isspace c" and "split_acc [] cs = []"
      by (simp_all add: split_acc_spaces)
    with Cons show ?thesis by simp
  qed
next
  case (Cons a s)
  then show ?case by simp
qed

lemma dropWhile_rev_decomp:
  "\<exists>ws. (\<forall>c\<in>set ws. P c) \<and> s = rev (dropWhile P (rev s)) @ ws"
proof -
  have "rev s = takeWhile P (rev s) @ dropWhile P (rev s)" by simp
  then have "s = rev (dropWhile P (rev s)) @ rev (takeWhile P (rev s))"
    by (metis rev_append rev_rev_ident)
  moreover have "\<forall>c\<in>set (rev (takeWhile P (rev s))). P c"
    by (auto dest: set_takeWhileD)
  ultimately show ?thesis by blast
qed

lemma str_split_strip: "str_split (strip s) = str_split s"
proof -
  obtain ws where ws: "\<forall>c\<in>set ws. isspace c"
    and d: "dropWhile isspace s = strip s @ ws"
    using dropWhile_rev_decomp [of isspace "dropWhile isspace s"]
    by (auto simp: strip_def)
  have "split_acc [] (strip s) = split_acc [] (strip s @ ws)"
    using ws by (simp add: split_acc_trail)
  also have "\<dots> = split_acc [] s"
    by (simp add: d [symmetric] split_acc_lead)
  finally show ?thesis by (simp add: str_split_def)
qed

lemma dropWhile_all_iff: "(\<forall>x\<in>set (dropWhile P s). P x) \<longleftrightarrow> (\<forall>x\<in>set s. P x)"
  by (induction s) auto

lemma strip_empty_iff: "strip s = [] \<longleftrightarrow> (\<forall>c\<in>set s. isspace c)"
  by (simp add: strip_def dropWhile_eq_Nil_conv dropWhile_all_iff)

lemma split_acc_not_Nil:
  "cur \<noteq> [] \<or> (\<exists>c\<in>set s. \<not> isspace c) \<Longrightarrow> split_acc cur s \<noteq> []"
  by (induction s arbitrary: cur) auto

lemma split_acc_words:
  "w \<in> set (split_acc cur s) \<Longrightarrow> \<forall>c\<in>set cur. \<not> isspace c \<Longrightarrow>
     w \<noteq> [] \<and> (\<forall>c\<in>set w. \<not> isspace c)"
proof (induction s arbitrary: cur)
  case Nil
  then show ?case by (cases "cur = []") simp_all
next
  case (Cons a s)
  show ?case
  proof (cases "isspace a")
    case True
    show ?thesis
    proof (cases "cur = []")
      case True
      with \<open>isspace a\<close> Cons.prems(1) have "w \<in> set (split_acc [] s)" by simp
      then show ?thesis by (rule Cons.IH) simp
    next
      case False
      with \<open>isspace a\<close> Cons.prems(1) have "w = cur \<or> w \<in> set (split_acc [] s)" by simp
      then show ?thesis
      proof
        assume "w = cur"
        with False Cons.prems(2) show ?thesis by simp
      next
        assume "w \<in> set (split_acc [] s)"
        then show ?thesis by (rule Cons.IH) simp
      qed
    qed
  next
    case False
    with Cons.prems(1) have "w \<in> set (split_acc (cur @ [a]) s)" by simp
    moreover from False Cons.prems(2) have "\<forall>c\<in>set (cur @ [a]). \<not> isspace c" by simp
    ultimately show ?thesis by (rule Cons.IH)
  qed
qed

lemma str_split_words:
  "w \<in> set (str_split s) \<Longrightarrow> w \<noteq> [] \<and> (\<forall>c\<in>set w. \<not> isspace c)"
  unfolding str_split_def using split_acc_words [of w "[]" s] by simp

lemma str_split_not_Nil: "strip s \<noteq> [] \<Longrightarrow> str_split s \<noteq> []"
  unfolding str_split_def using split_acc_not_Nil [of "[]" s]
  by (simp add: strip_empty_iff)

lemma join_not_Nil: "xs \<noteq> [] \<Longrightarrow> hd xs \<noteq> [] \<Longrightarrow> join sep xs \<noteq> []"
  by (induction sep xs rule: join.induct) auto

lemma lit_new_chat: "lit ''New chat'' \<noteq> []"
  by (simp add: lit_def)

lemma title_words_not_Nil:
  assumes "strip u \<noteq> []"
  shows "join sep (take 10 (str_split u)) \<noteq> []"
proof -
  from assms have ne: "str_split u \<noteq> []" by (rule str_split_not_Nil)
  then have "take 10 (str_split u) \<noteq> []" by simp
  moreover have "hd (take 10 (str_split u)) = hd (str_split u)" by simp
  moreover have "hd (str_split u) \<noteq> []"
    using ne str_split_words [of "hd (str_split u)" u] by simp
  ultimately show ?thesis by (simp add: join_not_Nil)
qed

lemma split_acc_skip: "\<forall>c\<in>set ws. isspace c \<Longrightarrow> split_acc [] (ws @ s) = split_acc [] s"
  by (induction ws) simp_all

lemma split_acc_word:
  "\<forall>c\<in>set w. \<not> isspace c \<Longrightarrow> isspace sep \<Longrightarrow> cur @ w \<noteq> [] \<Longrightarrow>
     split_acc cur (w @ sep # rest) = (cur @ w) # split_acc [] rest"
  by (induction w arbitrary: cur) simp_all

lemma split_acc_last_word:
  "\<forall>c\<in>set w. \<not> isspace c \<Longrightarrow> cur @ w \<noteq> [] \<Longrightarrow> split_acc cur w = [cur @ w]"
  by (induction w arbitrary: cur) simp_all

lemma str_split_spaces: "\<forall>c\<in>set ws. isspace c \<Longrightarrow> str_split ws = []"
  by (simp add: str_split_def split_acc_spaces)

lemma str_split_word:
  assumes "\<forall>c\<in>set ws. isspace c" and "w \<noteq> []" and "\<forall>c\<in>set w. \<not> isspace c" and "isspace sep"
  shows "str_split (ws @ w @ sep # rest) = w # str_split rest"
  using assms split_acc_word [of w sep "[]" rest]
  by (simp add: str_split_def split_acc_skip)

lemma str_split_last_word:
  assumes "\<forall>c\<in>set ws. isspace c" and "w \<noteq> []" and "\<forall>c\<in>set w. \<not> isspace c"
  shows "str_split (ws @ w) = [w]"
  using assms split_acc_last_word [of w "[]"]
  by (simp add: str_split_def split_acc_skip)

lemma join_concat: "join sep (x # xs) = x @ concat (map (\<lambda>y. sep @ y) xs)"
  by (induction xs arbitrary: x) simp_all

section \<open>The title deriver\<close>

text \<open>
  Claim C5. The title is the placeholder \<open>New chat\<close> for an empty history and for a
  first user text that is empty or all whitespace; otherwise it is the first ten
  whitespace-separated words of the first user text joined by single spaces (code point
  32), followed by the ellipsis (the code point U+2026, 8230) exactly when there were
  more than ten words. It depends on the first turn's user text only and is never the
  empty string. The words are the maximal runs of characters that are not whitespace:
  whitespace alone has no word, a word followed by a whitespace character is split off
  there, leading whitespace is skipped, and a word at the end is the last one. Joining
  puts the separator between consecutive words and nowhere else.
\<close>

theorem extract_title_from_history_spec:
  "extract_title_from_history [] = lit ''New chat'' \<and>
   ((\<forall>c\<in>set u. isspace c) \<longrightarrow> extract_title_from_history ((u, b) # rest) = lit ''New chat'') \<and>
   (\<not> (\<forall>c\<in>set u. isspace c) \<longrightarrow>
      extract_title_from_history ((u, b) # rest) =
        join [32] (take 10 (str_split u)) @ (if length (str_split u) > 10 then [8230] else [])) \<and>
   extract_title_from_history ((u, b) # rest) = extract_title_from_history [(u, b')] \<and>
   extract_title_from_history history \<noteq> [] \<and>
   ((\<forall>c\<in>set ws. isspace c) \<longrightarrow> str_split ws = []) \<and>
   ((\<forall>c\<in>set ws. isspace c) \<and> w \<noteq> [] \<and> (\<forall>c\<in>set w. \<not> isspace c) \<and> isspace sp \<longrightarrow>
      str_split (ws @ w @ sp # after) = w # str_split after) \<and>
   ((\<forall>c\<in>set ws. isspace c) \<and> w \<noteq> [] \<and> (\<forall>c\<in>set w. \<not> isspace c) \<longrightarrow>
      str_split (ws @ w) = [w]) \<and>
   join sep [] = [] \<and>
   join sep (x # xs) = x @ concat (map (\<lambda>y. sep @ y) xs)"
proof (intro conjI impI)
  show "extract_title_from_history [] = lit ''New chat''"
    by (simp add: extract_title_from_history_def)
  show "extract_title_from_history ((u, b) # rest) = lit ''New chat''"
    if "\<forall>c\<in>set u. isspace c"
    using that by (simp add: extract_title_from_history_def strip_empty_iff)
  show "extract_title_from_history ((u, b) # rest) =
        join [32] (take 10 (str_split u)) @ (if length (str_split u) > 10 then [8230] else [])"
    if "\<not> (\<forall>c\<in>set u. isspace c)"
  proof -
    from that have "strip u \<noteq> []" by (simp add: strip_empty_iff)
    moreover have "lit '' '' = [32]" by (simp add: lit_def)
    ultimately show ?thesis
      by (simp add: extract_title_from_history_def Let_def str_split_strip ellipsis_def)
  qed
  show "extract_title_from_history ((u, b) # rest) = extract_title_from_history [(u, b')]"
    by (simp add: extract_title_from_history_def)
  show "extract_title_from_history history \<noteq> []"
  proof (cases history)
    case Nil
    then show ?thesis by (simp add: extract_title_from_history_def lit_new_chat)
  next
    case (Cons t ts)
    show ?thesis
    proof (cases "strip (fst t) = []")
      case True
      with Cons show ?thesis by (simp add: extract_title_from_history_def lit_new_chat)
    next
      case False
      then have "join (lit '' '') (take 10 (str_split (fst t))) \<noteq> []"
        by (rule title_words_not_Nil)
      with Cons False show ?thesis
        by (simp add: extract_title_from_history_def Let_def str_split_strip)
    qed
  qed
  show "str_split ws = []" if "\<forall>c\<in>set ws. isspace c"
    using that by (rule str_split_spaces)
  show "str_split (ws @ w @ sp # after) = w # str_split after"
    if "(\<forall>c\<in>set ws. isspace c) \<and> w \<noteq> [] \<and> (\<forall>c\<in>set w. \<not> isspace c) \<and> isspace sp"
    using that by (simp add: str_split_word)
  show "str_split (ws @ w) = [w]"
    if "(\<forall>c\<in>set ws. isspace c) \<and> w \<noteq> [] \<and> (\<forall>c\<in>set w. \<not> isspace c)"
    using that by (simp add: str_split_last_word)
  show "join sep [] = []" by simp
  show "join sep (x # xs) = x @ concat (map (\<lambda>y. sep @ y) xs)" by (rule join_concat)
qed

theorem extract_title_from_history_spec_witness:
  "extract_title_from_history [] = lit ''New chat'' \<and>
   extract_title_from_history [([32, 9, 160], lit ''x'')] = lit ''New chat'' \<and>
   extract_title_from_history [(lit ''a b c d e f g h i j k'', lit ''x'')] =
     lit ''a b c d e f g h i j'' @ [8230] \<and>
   extract_title_from_history [(lit ''a b c d e f g h i j'', lit ''x'')] =
     lit ''a b c d e f g h i j'' \<and>
   extract_title_from_history
     [([32, 9] @ lit ''Hi'' @ [160, 10, 8195] @ lit ''there'' @ [12288], lit ''x''),
      (lit ''more'', lit ''y'')] = lit ''Hi there'' \<and>
   str_split ([9] @ lit ''Hi'' @ [10] @ lit '' there'') = [lit ''Hi'', lit ''there'']"
proof -
  note T = extract_title_from_history_spec
  have r0: "extract_title_from_history [] = lit ''New chat''"
    using T by (rule conjunct1)
  have "\<forall>c\<in>set [32, 9, 160]. isspace c" by (simp add: isspace_def)
  then have r1: "extract_title_from_history [([32, 9, 160], lit ''x'')] = lit ''New chat''"
    using T [where u = "[32, 9, 160]" and b = "lit ''x''" and rest = "[]",
             THEN conjunct2, THEN conjunct1]
    by (rule rev_mp)
  have n11: "\<not> (\<forall>c\<in>set (lit ''a b c d e f g h i j k''). isspace c)"
    by (simp add: lit_def isspace_def)
  have s11: "str_split (lit ''a b c d e f g h i j k'') = map (\<lambda>c. [c]) (lit ''abcdefghijk'')"
    by (simp add: lit_def str_split_def isspace_def)
  have "extract_title_from_history [(lit ''a b c d e f g h i j k'', lit ''x'')] =
        join [32] (take 10 (str_split (lit ''a b c d e f g h i j k''))) @
          (if length (str_split (lit ''a b c d e f g h i j k'')) > 10 then [8230] else [])"
    using n11
      T [where u = "lit ''a b c d e f g h i j k''" and b = "lit ''x''" and rest = "[]",
         THEN conjunct2, THEN conjunct2, THEN conjunct1]
    by (rule rev_mp)
  then have r2: "extract_title_from_history [(lit ''a b c d e f g h i j k'', lit ''x'')] =
     lit ''a b c d e f g h i j'' @ [8230]"
    by (simp add: s11) (simp add: lit_def)
  have n10: "\<not> (\<forall>c\<in>set (lit ''a b c d e f g h i j''). isspace c)"
    by (simp add: lit_def isspace_def)
  have s10: "str_split (lit ''a b c d e f g h i j'') = map (\<lambda>c. [c]) (lit ''abcdefghij'')"
    by (simp add: lit_def str_split_def isspace_def)
  have "extract_title_from_history [(lit ''a b c d e f g h i j'', lit ''x'')] =
        join [32] (take 10 (str_split (lit ''a b c d e f g h i j''))) @
          (if length (str_split (lit ''a b c d e f g h i j'')) > 10 then [8230] else [])"
    using n10
      T [where u = "lit ''a b c d e f g h i j''" and b = "lit ''x''" and rest = "[]",
         THEN conjunct2, THEN conjunct2, THEN conjunct1]
    by (rule rev_mp)
  then have r3: "extract_title_from_history [(lit ''a b c d e f g h i j'', lit ''x'')] =
     lit ''a b c d e f g h i j''"
    by (simp add: s10) (simp add: lit_def)
  let ?u = "[32, 9] @ lit ''Hi'' @ [160, 10, 8195] @ lit ''there'' @ [12288]"
  have nu: "\<not> (\<forall>c\<in>set ?u. isspace c)"
    by (simp add: lit_def isspace_def)
  have su: "str_split ?u = [lit ''Hi'', lit ''there'']"
    by (simp add: lit_def str_split_def isspace_def)
  have "extract_title_from_history [(?u, lit ''x''), (lit ''more'', lit ''y'')] =
        join [32] (take 10 (str_split ?u)) @ (if length (str_split ?u) > 10 then [8230] else [])"
    using nu
      T [where u = ?u and b = "lit ''x''" and rest = "[(lit ''more'', lit ''y'')]",
         THEN conjunct2, THEN conjunct2, THEN conjunct1]
    by (rule rev_mp)
  then have r4: "extract_title_from_history [(?u, lit ''x''), (lit ''more'', lit ''y'')] =
     lit ''Hi there''"
    unfolding su by (simp add: lit_def)
  have a: "(\<forall>c\<in>set [9]. isspace c) \<and> lit ''Hi'' \<noteq> [] \<and> (\<forall>c\<in>set (lit ''Hi''). \<not> isspace c) \<and>
           isspace 10"
    by (simp add: lit_def isspace_def)
  have b: "(\<forall>c\<in>set [32]. isspace c) \<and> lit ''there'' \<noteq> [] \<and>
           (\<forall>c\<in>set (lit ''there''). \<not> isspace c)"
    by (simp add: lit_def isspace_def)
  have "str_split ([9] @ lit ''Hi'' @ 10 # lit '' there'') = lit ''Hi'' # str_split (lit '' there'')"
    using a T [where ws = "[9]" and w = "lit ''Hi''" and sp = 10 and after = "lit '' there''",
               THEN conjunct2, THEN conjunct2, THEN conjunct2, THEN conjunct2, THEN conjunct2,
               THEN conjunct2, THEN conjunct1]
    by (rule rev_mp)
  moreover have "str_split ([32] @ lit ''there'') = [lit ''there'']"
    using b T [where ws = "[32]" and w = "lit ''there''",
               THEN conjunct2, THEN conjunct2, THEN conjunct2, THEN conjunct2, THEN conjunct2,
               THEN conjunct2, THEN conjunct2, THEN conjunct1]
    by (rule rev_mp)
  moreover have "lit '' there'' = [32] @ lit ''there''" by (simp add: lit_def)
  ultimately have r5: "str_split ([9] @ lit ''Hi'' @ [10] @ lit '' there'') =
      [lit ''Hi'', lit ''there'']"
    by simp
  show ?thesis by (intro conjI r0 r1 r2 r3 r4 r5)
qed

section \<open>Blank input\<close>

text \<open>
  Claim C7. When the user text is empty or all whitespace, \<open>jd_reply_core\<close> changes
  nothing: the world it returns (the conversations in memory, the conversations file
  and the flat log) is the one it was given, and the reply is the session turns as they
  were, no audio, the same active id and the titles of the conversations.
\<close>

theorem jd_reply_core_blank:
  assumes "\<forall>c\<in>set user_input. isspace c"
  shows "jd_reply_core E user_input speak ui_history cid w =
           (w, Inr (ui_history, None, cid, map title (conversations w)))"
proof -
  from assms have "strip user_input = []" by (simp add: strip_empty_iff)
  then show ?thesis by (simp add: jd_reply_core_def)
qed

theorem jd_reply_core_blank_witness:
  "jd_reply_core (example_env []) (lit ''  '') True [(lit ''a'', lit ''b'')] (Some (lit ''u1''))
     empty_world =
   (empty_world, Inr ([(lit ''a'', lit ''b'')], None, Some (lit ''u1''), []))"
proof -
  have "\<forall>c\<in>set (lit ''  ''). isspace c" by (simp add: lit_def isspace_def)
  from jd_reply_core_blank [OF this, of "example_env []" True "[(lit ''a'', lit ''b'')]"
      "Some (lit ''u1'')" empty_world]
  show ?thesis by (simp add: empty_world_def)
qed

section \<open>Loading the store\<close>

text \<open>
  Claim C8. \<open>load_conversations\<close> never raises: its result is always a list. It is
  the parsed list when the file exists, can be read and parses to a top-level array, and
  the empty list when the file is absent, cannot be read or parsed, or parses to
  something that is not an array.
\<close>

theorem load_conversations_total:
  "(\<exists>xs. load_conversations E w = Inr xs) \<and>
   (conv_file w = Some body \<and> conv_read_ok E \<and> json_load E body = Some (JArr xs)
        \<longrightarrow> load_conversations E w = Inr xs) \<and>
   (conv_file w = None \<longrightarrow> load_conversations E w = Inr []) \<and>
   (conv_file w = Some body \<and> (\<not> conv_read_ok E \<or> json_load E body = None)
        \<longrightarrow> load_conversations E w = Inr []) \<and>
   (conv_file w = Some body \<and> json_load E body = Some v \<and> (\<forall>ys. v \<noteq> JArr ys)
        \<longrightarrow> load_conversations E w = Inr [])"
proof (intro conjI impI)
  show "\<exists>xs. load_conversations E w = Inr xs"
    by (simp add: load_conversations_def split: option.split sum.split)
  show "load_conversations E w = Inr xs"
    if "conv_file w = Some body \<and> conv_read_ok E \<and> json_load E body = Some (JArr xs)"
    using that by (simp add: load_conversations_def load_try_def)
  show "load_conversations E w = Inr []" if "conv_file w = None"
    using that by (simp add: load_conversations_def)
  show "load_conversations E w = Inr []"
    if "conv_file w = Some body \<and> (\<not> conv_read_ok E \<or> json_load E body = None)"
    using that by (auto simp: load_conversations_def load_try_def)
  show "load_conversations E w = Inr []"
    if "conv_file w = Some body \<and> json_load E body = Some v \<and> (\<forall>ys. v \<noteq> JArr ys)"
    using that by (cases v) (auto simp: load_conversations_def load_try_def)
qed

theorem load_conversations_total_witness:
  "load_conversations (example_env [JArr [JStr (lit ''a'')]])
     (empty_world\<lparr>conv_file := Some (json_text (JArr [JStr (lit ''a'')]))\<rparr>) =
     Inr [JStr (lit ''a'')] \<and>
   load_conversations (example_env []) empty_world = Inr [] \<and>
   load_conversations (example_env []) (empty_world\<lparr>conv_file := Some (lit ''{broken'')\<rparr>) = Inr [] \<and>
   load_conversations (example_env [JStr (lit ''a'')])
     (empty_world\<lparr>conv_file := Some (json_text (JStr (lit ''a'')))\<rparr>) = Inr []"
proof -
  let ?d = "JArr [JStr (lit ''a'')]"
  have "conv_file (empty_world\<lparr>conv_file := Some (json_text ?d)\<rparr>) = Some (json_text ?d) \<and>
        conv_read_ok (example_env [?d]) \<and>
        json_load (example_env [?d]) (json_text ?d) = Some (JArr [JStr (lit ''a'')])"
    by (simp add: example_env_def read_back_def)
  with load_conversations_total
    [where E = "example_env [?d]" and w = "empty_world\<lparr>conv_file := Some (json_text ?d)\<rparr>"
       and body = "json_text ?d" and xs = "[JStr (lit ''a'')]"]
  have r1: "load_conversations (example_env [?d]) (empty_world\<lparr>conv_file := Some (json_text ?d)\<rparr>)
              = Inr [JStr (lit ''a'')]" by blast
  have "conv_file empty_world = None" by (simp add: empty_world_def)
  with load_conversations_total [where E = "example_env []" and w = empty_world]
  have r2: "load_conversations (example_env []) empty_world = Inr []" by blast
  have "conv_file (empty_world\<lparr>conv_file := Some (lit ''{broken'')\<rparr>) = Some (lit ''{broken'') \<and>
        (\<not> conv_read_ok (example_env []) \<or> json_load (example_env []) (lit ''{broken'') = None)"
    by (simp add: example_env_def read_back_def)
  with load_conversations_total
    [where E = "example_env []" and w = "empty_world\<lparr>conv_file := Some (lit ''{broken'')\<rparr>"
       and body = "lit ''{broken''"]
  have r3: "load_conversations (example_env []) (empty_world\<lparr>conv_file := Some (lit ''{broken'')\<rparr>)
              = Inr []" by blast
  let ?s = "JStr (lit ''a'')"
  have "conv_file (empty_world\<lparr>conv_file := Some (json_text ?s)\<rparr>) = Some (json_text ?s) \<and>
        json_load (example_env [?s]) (json_text ?s) = Some ?s \<and> (\<forall>ys. ?s \<noteq> JArr ys)"
    by (simp add: example_env_def read_back_def)
  with load_conversations_total
    [where E = "example_env [?s]" and w = "empty_world\<lparr>conv_file := Some (json_text ?s)\<rparr>"
       and body = "json_text ?s" and v = "?s"]
  have r4: "load_conversations (example_env [?s]) (empty_world\<lparr>conv_file := Some (json_text ?s)\<rparr>)
              = Inr []" by blast
  show ?thesis by (intro conjI r1 r2 r3 r4)
qed

section \<open>Assembling the context from memory\<close>

lemma append_turns_eq:
  "append_turns ts mem = mem @ map (\<lambda>t. \<lparr>instruction = fst t, output_text = snd t\<rparr>) ts"
  by (induction ts arbitrary: mem) simp_all

lemma append_convs_eq: "append_convs convs mem = mem @ store_pairs convs"
  by (induction convs arbitrary: mem) (simp_all add: store_pairs_def append_turns_eq)

lemma all_memory_pairs_eq: "all_memory_pairs convs = store_pairs convs"
  by (simp add: all_memory_pairs_def append_convs_eq)

lemma render_pair_not_Nil: "render_pair p \<noteq> []"
  by (simp add: render_pair_def lit_def)

lemma join_render_not_Nil: "ps \<noteq> [] \<Longrightarrow> join sep (map render_pair ps) \<noteq> []"
  by (rule join_not_Nil) (simp_all add: hd_map render_pair_not_Nil)

lemma last_n_length: "length (last_n n xs) = min n (length xs)"
  by (simp add: last_n_def)

lemma last_n_Nil_iff: "0 < n \<Longrightarrow> last_n n xs = [] \<longleftrightarrow> xs = []"
  by (cases xs) (simp_all add: last_n_def)

text \<open>
  Claim C4. With \<open>N\<close> the number of pairs obtained by flattening the turns of all
  conversations in store order, the context holds exactly the last \<open>min 50 N\<close> of
  them, whole and in their order, rendered as \<open>User: ...\<close>, newline,
  \<open>Assistant: ...\<close> and separated by blank lines in one second system message; when
  there is no pair the context is the first system message alone.
\<close>

theorem build_messages_from_memory_spec:
  "all_memory_pairs convs = store_pairs convs \<and>
   length (last_n 50 (store_pairs convs)) = min 50 (length (store_pairs convs)) \<and>
   (\<exists>older. store_pairs convs = older @ last_n 50 (store_pairs convs)) \<and>
   (store_pairs convs = [] \<longrightarrow> build_messages_from_memory convs = [system_msg]) \<and>
   (store_pairs convs \<noteq> [] \<longrightarrow>
      build_messages_from_memory convs =
        [system_msg,
         \<lparr>role = lit ''system'',
          content = memory_label @
            join [10, 10] (map render_pair (last_n 50 (store_pairs convs)))\<rparr>])"
proof (intro conjI impI)
  show "all_memory_pairs convs = store_pairs convs" by (rule all_memory_pairs_eq)
  show "length (last_n 50 (store_pairs convs)) = min 50 (length (store_pairs convs))"
    by (rule last_n_length)
  have "store_pairs convs =
          take (length (store_pairs convs) - 50) (store_pairs convs) @ last_n 50 (store_pairs convs)"
    by (simp add: last_n_def)
  then show "\<exists>older. store_pairs convs = older @ last_n 50 (store_pairs convs)" ..
  show "build_messages_from_memory convs = [system_msg]" if "store_pairs convs = []"
    using that by (simp add: build_messages_from_memory_def all_memory_pairs_eq last_n_def)
  show "build_messages_from_memory convs =
        [system_msg,
         \<lparr>role = lit ''system'',
          content = memory_label @
            join [10, 10] (map render_pair (last_n 50 (store_pairs convs)))\<rparr>]"
    if "store_pairs convs \<noteq> []"
  proof -
    from that have ne: "last_n 50 (store_pairs convs) \<noteq> []"
      by (simp add: last_n_Nil_iff)
    then have "join [10, 10] (map render_pair (last_n 50 (store_pairs convs))) \<noteq> []"
      by (rule join_render_not_Nil)
    with ne show ?thesis
      by (simp add: build_messages_from_memory_def all_memory_pairs_eq Let_def)
  qed
qed

theorem build_messages_from_memory_spec_witness:
  "build_messages_from_memory [] = [system_msg] \<and>
   build_messages_from_memory two_convs =
     [system_msg,
      \<lparr>role = lit ''system'',
       content = memory_label @ lit ''User: Hi'' @ [10] @ lit ''Assistant: Hello'' @ [10, 10] @
                 lit ''User: Bye'' @ [10] @ lit ''Assistant: See you''\<rparr>] \<and>
   build_messages_from_memory [long_conv] =
     [system_msg,
      \<lparr>role = lit ''system'',
       content = memory_label @
         join [10, 10]
           (map (\<lambda>i. lit ''User: '' @ [48 + i] @ [10] @ lit ''Assistant: '' @ [65 + i]) [10..<60])\<rparr>]"
proof -
  note T = build_messages_from_memory_spec
  have "store_pairs [] = []" by (simp add: store_pairs_def)
  then have r1: "build_messages_from_memory [] = [system_msg]"
    using T [of "[]"] by blast
  have s2: "store_pairs two_convs =
      [\<lparr>instruction = lit ''Hi'', output_text = lit ''Hello''\<rparr>,
       \<lparr>instruction = lit ''Bye'', output_text = lit ''See you''\<rparr>]"
    by (simp add: store_pairs_def two_convs_def)
  then have "store_pairs two_convs \<noteq> []" by simp
  then have "build_messages_from_memory two_convs =
        [system_msg,
         \<lparr>role = lit ''system'',
          content = memory_label @
            join [10, 10] (map render_pair (last_n 50 (store_pairs two_convs)))\<rparr>]"
    using T [of two_convs] by blast
  then have r2: "build_messages_from_memory two_convs =
     [system_msg,
      \<lparr>role = lit ''system'',
       content = memory_label @ lit ''User: Hi'' @ [10] @ lit ''Assistant: Hello'' @ [10, 10] @
                 lit ''User: Bye'' @ [10] @ lit ''Assistant: See you''\<rparr>]"
    by (simp add: s2 last_n_def render_pair_def lit_def)
  have s3: "store_pairs [long_conv] =
      map (\<lambda>i. \<lparr>instruction = [48 + i], output_text = [65 + i]\<rparr>) [0..<60]"
    by (simp add: store_pairs_def long_conv_def comp_def)
  then have "store_pairs [long_conv] \<noteq> []" by simp
  then have "build_messages_from_memory [long_conv] =
        [system_msg,
         \<lparr>role = lit ''system'',
          content = memory_label @
            join [10, 10] (map render_pair (last_n 50 (store_pairs [long_conv])))\<rparr>]"
    using T [of "[long_conv]"] by blast
  moreover have "last_n 50 (store_pairs [long_conv]) =
      map (\<lambda>i. \<lparr>instruction = [48 + i], output_text = [65 + i]\<rparr>) [10..<60]"
    unfolding s3 last_n_def by (simp add: drop_map)
  ultimately have r3: "build_messages_from_memory [long_conv] =
     [system_msg,
      \<lparr>role = lit ''system'',
       content = memory_label @
         join [10, 10]
           (map (\<lambda>i. lit ''User: '' @ [48 + i] @ [10] @ lit ''Assistant: '' @ [65 + i]) [10..<60])\<rparr>]"
    by (simp add: render_pair_def comp_def)
  show ?thesis by (intro conjI r1 r2 r3)
qed

section \<open>Handling a message\<close>

lemma save_conversations_fields:
  "save_conversations E js w = (w', r) \<Longrightarrow>
     conversations w' = conversations w \<and> flat_file w' = flat_file w"
  by (auto simp: save_conversations_def split: outcome.splits)

lemma log_flat_pair_fields:
  "log_flat_pair E a b w = (w', r) \<Longrightarrow>
     conversations w' = conversations w \<and> conv_file w' = conv_file w"
  by (auto simp: log_flat_pair_def Let_def split: outcome.splits if_splits)

lemma jd_reply_core_conversations:
  assumes "strip u \<noteq> []"
  shows "conversations (fst (jd_reply_core E u speak ui cid w)) =
           snd (update_or_create E (updated_history E (conversations w) ui u) cid (conversations w))"
proof -
  let ?h = "updated_history E (conversations w) ui u"
  obtain i convs where uc: "update_or_create E ?h cid (conversations w) = (i, convs)"
    by (cases "update_or_create E ?h cid (conversations w)")
  obtain w2 saved where sv:
    "save_conversations E (map conv_dict convs) (w\<lparr>conversations := convs\<rparr>) = (w2, saved)"
    by (cases "save_conversations E (map conv_dict convs) (w\<lparr>conversations := convs\<rparr>)")
  obtain w3 logged where lg:
    "log_flat_pair E (strip u)
       (get_answer E (context_messages (conversations w) ui (strip u))) w2 = (w3, logged)"
    by (cases "log_flat_pair E (strip u)
       (get_answer E (context_messages (conversations w) ui (strip u))) w2")
  from save_conversations_fields [OF sv] have c2: "conversations w2 = convs" by simp
  from log_flat_pair_fields [OF lg] c2 have c3: "conversations w3 = convs" by simp
  have "fst (jd_reply_core E u speak ui cid w) = (case saved of Inl e \<Rightarrow> w2 | Inr _ \<Rightarrow> w3)"
    using assms uc sv lg
    by (simp add: jd_reply_core_def Let_def updated_history_def split: sum.split)
  with c2 c3 uc show ?thesis by (simp split: sum.split)
qed

lemma update_existing_None:
  "cid \<notin> conv_id ` set convs \<Longrightarrow> update_existing cid h convs = None"
  by (induction convs) auto

lemma update_existing_Some:
  "cid \<in> conv_id ` set convs \<Longrightarrow>
   \<exists>pre c post. convs = pre @ c # post \<and> (\<forall>d\<in>set pre. conv_id d \<noteq> cid) \<and> conv_id c = cid \<and>
      update_existing cid h convs =
        Some (pre @ c\<lparr>turns := h, title := extract_title_from_history h\<rparr> # post)"
proof (induction convs)
  case Nil
  then show ?case by simp
next
  case (Cons a convs)
  show ?case
  proof (cases "conv_id a = cid")
    case True
    then have "a # convs = [] @ a # convs \<and> (\<forall>d\<in>set []. conv_id d \<noteq> cid) \<and> conv_id a = cid \<and>
      update_existing cid h (a # convs) =
        Some ([] @ a\<lparr>turns := h, title := extract_title_from_history h\<rparr> # convs)" by simp
    then show ?thesis by blast
  next
    case False
    with Cons.prems have "cid \<in> conv_id ` set convs" by auto
    from Cons.IH [OF this] obtain pre c post where
      h: "convs = pre @ c # post" "\<forall>d\<in>set pre. conv_id d \<noteq> cid" "conv_id c = cid"
         "update_existing cid h convs =
            Some (pre @ c\<lparr>turns := h, title := extract_title_from_history h\<rparr> # post)" by blast
    with False have "a # convs = (a # pre) @ c # post \<and> (\<forall>d\<in>set (a # pre). conv_id d \<noteq> cid) \<and>
      conv_id c = cid \<and>
      update_existing cid h (a # convs) =
        Some ((a # pre) @ c\<lparr>turns := h, title := extract_title_from_history h\<rparr> # post)" by simp
    then show ?thesis by blast
  qed
qed

lemma update_or_create_new:
  "cid = None \<or> (\<forall>c\<in>set convs. Some (conv_id c) \<noteq> cid) \<Longrightarrow>
     update_or_create E h cid convs = (uuid4 E, convs @ [new_conv (uuid4 E) h])"
proof (cases cid)
  case None
  then show ?thesis by (simp add: update_or_create_def)
next
  case (Some x)
  assume "cid = None \<or> (\<forall>c\<in>set convs. Some (conv_id c) \<noteq> cid)"
  with Some have "x \<notin> conv_id ` set convs" by auto
  then have "update_existing x h convs = None" by (rule update_existing_None)
  with Some show ?thesis by (simp add: update_or_create_def)
qed

lemma update_or_create_existing:
  assumes "x \<in> conv_id ` set convs"
  shows "\<exists>pre c post. convs = pre @ c # post \<and> (\<forall>d\<in>set pre. conv_id d \<noteq> x) \<and> conv_id c = x \<and>
      update_or_create E h (Some x) convs =
        (x, pre @ c\<lparr>turns := h, title := extract_title_from_history h\<rparr> # post)"
proof -
  from update_existing_Some [OF assms, of h] obtain pre c post where
    h: "convs = pre @ c # post" "\<forall>d\<in>set pre. conv_id d \<noteq> x" "conv_id c = x"
       "update_existing x h convs =
          Some (pre @ c\<lparr>turns := h, title := extract_title_from_history h\<rparr> # post)" by blast
  then have "update_or_create E h (Some x) convs =
        (x, pre @ c\<lparr>turns := h, title := extract_title_from_history h\<rparr> # post)"
    by (simp add: update_or_create_def)
  with h show ?thesis by blast
qed

lemma update_or_create_ids:
  "map conv_id (snd (update_or_create E h cid convs)) = map conv_id convs \<or>
   (snd (update_or_create E h cid convs) = convs @ [new_conv (uuid4 E) h])"
proof (cases "cid = None \<or> (\<forall>c\<in>set convs. Some (conv_id c) \<noteq> cid)")
  case True
  then show ?thesis by (simp add: update_or_create_new)
next
  case False
  then obtain x where x: "cid = Some x" "x \<in> conv_id ` set convs" by auto
  from update_or_create_existing [OF x(2), of E h] x(1) show ?thesis by auto
qed

lemma update_or_create_target:
  "\<exists>c\<in>set (snd (update_or_create E h cid convs)).
      conv_id c = fst (update_or_create E h cid convs) \<and> turns c = h"
proof (cases "cid = None \<or> (\<forall>c\<in>set convs. Some (conv_id c) \<noteq> cid)")
  case True
  then show ?thesis by (simp add: update_or_create_new new_conv_def)
next
  case False
  then obtain x where x: "cid = Some x" "x \<in> conv_id ` set convs" by auto
  from update_or_create_existing [OF x(2), of E h] x(1) show ?thesis by auto
qed

lemma jd_reply_core_save_fails:
  assumes "strip u \<noteq> []" and "conv_write E = Fails left"
  shows "jd_reply_core E u speak ui cid w =
           (w\<lparr>conversations :=
                 snd (update_or_create E (updated_history E (conversations w) ui u) cid
                        (conversations w)),
               conv_file := left\<rparr>, Inl OSError)"
  using assms
  by (simp add: jd_reply_core_def Let_def updated_history_def save_conversations_def
      split: prod.split)

lemma jd_reply_core_log_fails:
  assumes "strip u \<noteq> []" and "conv_write E = Succeeds" and "flat_write E = Fails left"
    and "get_answer E (context_messages (conversations w) ui (strip u)) \<noteq> []"
  shows "jd_reply_core E u speak ui cid w =
           (w\<lparr>conversations :=
                 snd (update_or_create E (updated_history E (conversations w) ui u) cid
                        (conversations w)),
               conv_file :=
                 Some (json_dump E (JArr (map conv_dict
                   (snd (update_or_create E (updated_history E (conversations w) ui u) cid
                          (conversations w)))))),
               flat_file := left\<rparr>, Inl OSError)"
  using assms
  by (simp add: jd_reply_core_def Let_def updated_history_def save_conversations_def
      log_flat_pair_def split: prod.split)

lemma jd_reply_core_ok:
  assumes "strip u \<noteq> []" and "conv_write E = Succeeds" and "flat_write E = Succeeds"
    and "get_answer E (context_messages (conversations w) ui (strip u)) \<noteq> []"
  shows "jd_reply_core E u speak ui cid w =
           (w\<lparr>conversations :=
                 snd (update_or_create E (updated_history E (conversations w) ui u) cid
                        (conversations w)),
               conv_file :=
                 Some (json_dump E (JArr (map conv_dict
                   (snd (update_or_create E (updated_history E (conversations w) ui u) cid
                          (conversations w)))))),
               flat_file :=
                 Some ((case flat_file w of None \<Rightarrow> [] | Some old \<Rightarrow> old) @
                   json_dumps E (flat_record (strip u)
                     (get_answer E (context_messages (conversations w) ui (strip u)))) @ [10])\<rparr>,
            Inr (updated_history E (conversations w) ui u,
                 if speak
                 then Some (make_tts E (get_answer E (context_messages (conversations w) ui (strip u))))
                 else None,
                 Some (fst (update_or_create E (updated_history E (conversations w) ui u) cid
                        (conversations w))),
                 map title (snd (update_or_create E (updated_history E (conversations w) ui u) cid
                        (conversations w)))))"
  using assms
  by (simp add: jd_reply_core_def Let_def updated_history_def save_conversations_def
      log_flat_pair_def split: prod.split)

lemma jd_reply_core_not_logged:
  assumes "strip u \<noteq> []" and "conv_write E = Succeeds"
    and "get_answer E (context_messages (conversations w) ui (strip u)) = []"
  shows "jd_reply_core E u speak ui cid w =
           (w\<lparr>conversations :=
                 snd (update_or_create E (updated_history E (conversations w) ui u) cid
                        (conversations w)),
               conv_file :=
                 Some (json_dump E (JArr (map conv_dict
                   (snd (update_or_create E (updated_history E (conversations w) ui u) cid
                          (conversations w))))))\<rparr>,
            Inr (updated_history E (conversations w) ui u,
                 if speak then Some (make_tts E []) else None,
                 Some (fst (update_or_create E (updated_history E (conversations w) ui u) cid
                        (conversations w))),
                 map title (snd (update_or_create E (updated_history E (conversations w) ui u) cid
                        (conversations w)))))"
  using assms
  by (simp add: jd_reply_core_def Let_def updated_history_def save_conversations_def
      log_flat_pair_def split: prod.split)

lemma error_answer:
  "ollama_chat E msgs = Inl e \<Longrightarrow>
     get_answer E msgs = lit ''Ollama error: '' @ e \<and> get_answer E msgs \<noteq> []"
  by (simp add: get_answer_def lit_def)

lemma strip_Hi: "strip (lit ''Hi'') = lit ''Hi''"
  by (simp add: lit_def strip_def isspace_def)

lemma title_Hi: "extract_title_from_history [(lit ''Hi'', a)] = lit ''Hi''"
proof -
  have "str_split (lit ''Hi'') = [lit ''Hi'']"
    by (simp add: lit_def str_split_def isspace_def)
  moreover have "lit ''Hi'' \<noteq> []" by (simp add: lit_def)
  ultimately show ?thesis
    by (simp add: extract_title_from_history_def strip_Hi)
qed

lemma down_answer:
  "ollama_chat E = (\<lambda>_. Inl (lit ''down'')) \<Longrightarrow> get_answer E msgs = lit ''Ollama error: down''"
  by (simp add: get_answer_def lit_def)

lemma example_history:
  "ollama_chat E = (\<lambda>_. Inl (lit ''down'')) \<Longrightarrow>
     updated_history E convs [] (lit ''Hi'') = [(lit ''Hi'', lit ''Ollama error: down'')]"
  by (simp add: updated_history_def strip_Hi down_answer)

lemma example_chat:
  "ollama_chat (example_env docs) = (\<lambda>_. Inl (lit ''down''))"
  "ollama_chat failing_log_env = (\<lambda>_. Inl (lit ''down''))"
  by (simp_all add: example_env_def failing_log_env_def)

lemma example_after:
  assumes "ollama_chat E = (\<lambda>_. Inl (lit ''down''))" and "uuid4 E = lit ''u1''"
  shows "conversations (fst (jd_reply_core E (lit ''Hi'') speak [] None empty_world)) = [first_conv]"
proof -
  have "strip (lit ''Hi'') \<noteq> []" by (simp add: lit_def strip_def isspace_def)
  from jd_reply_core_conversations [OF this, of E speak "[]" None empty_world]
  show ?thesis
    using assms
    by (simp add: empty_world_def example_history update_or_create_def new_conv_def title_Hi
        first_conv_def)
qed

text \<open>
  Claim C1. For a message that is not blank, the conversations in memory after
  \<open>jd_reply_core\<close> are: when the active id is \<open>None\<close> or is the id of no
  conversation, the old ones followed by one new conversation that carries the id
  returned by the id generator, the full updated session turns and the title derived from
  them; otherwise the old ones with the first conversation of that id given the full
  updated session turns and the title derived from them, and nothing appended. The new id
  is unique as far as the generator is: ids stay pairwise distinct when the generated id
  is not in use. This holds whether or not the writes that follow go through.
\<close>

theorem jd_reply_core_resolves:
  assumes "strip u \<noteq> []"
  shows
  "((cid = None \<or> (\<forall>c\<in>set (conversations w). Some (conv_id c) \<noteq> cid)) \<longrightarrow>
      conversations (fst (jd_reply_core E u speak ui cid w)) =
        conversations w @
          [\<lparr>conv_id = uuid4 E,
            title = extract_title_from_history (updated_history E (conversations w) ui u),
            turns = updated_history E (conversations w) ui u\<rparr>]) \<and>
   (cid = Some x \<and> x \<in> conv_id ` set (conversations w) \<longrightarrow>
      (\<exists>pre c post.
         conversations w = pre @ c # post \<and> (\<forall>d\<in>set pre. conv_id d \<noteq> x) \<and> conv_id c = x \<and>
         conversations (fst (jd_reply_core E u speak ui cid w)) =
           pre @ c\<lparr>turns := updated_history E (conversations w) ui u,
                   title := extract_title_from_history (updated_history E (conversations w) ui u)\<rparr>
               # post) \<and>
      length (conversations (fst (jd_reply_core E u speak ui cid w))) = length (conversations w)) \<and>
   (distinct (map conv_id (conversations w)) \<and> uuid4 E \<notin> conv_id ` set (conversations w) \<longrightarrow>
      distinct (map conv_id (conversations (fst (jd_reply_core E u speak ui cid w)))))"
proof -
  let ?h = "updated_history E (conversations w) ui u"
  let ?after = "conversations (fst (jd_reply_core E u speak ui cid w))"
  have after: "?after = snd (update_or_create E ?h cid (conversations w))"
    using assms by (rule jd_reply_core_conversations)
  have new: "?after = conversations w @
          [\<lparr>conv_id = uuid4 E, title = extract_title_from_history ?h, turns = ?h\<rparr>]"
    if "cid = None \<or> (\<forall>c\<in>set (conversations w). Some (conv_id c) \<noteq> cid)"
    using that by (simp add: after update_or_create_new new_conv_def)
  have old: "(\<exists>pre c post.
         conversations w = pre @ c # post \<and> (\<forall>d\<in>set pre. conv_id d \<noteq> x) \<and> conv_id c = x \<and>
         ?after = pre @ c\<lparr>turns := ?h, title := extract_title_from_history ?h\<rparr> # post) \<and>
      length ?after = length (conversations w)"
    if "cid = Some x \<and> x \<in> conv_id ` set (conversations w)"
  proof -
    from that have x: "cid = Some x" "x \<in> conv_id ` set (conversations w)" by simp_all
    from update_or_create_existing [OF x(2), of E ?h] obtain pre c post where
      h: "conversations w = pre @ c # post" "\<forall>d\<in>set pre. conv_id d \<noteq> x" "conv_id c = x"
         "update_or_create E ?h (Some x) (conversations w) =
            (x, pre @ c\<lparr>turns := ?h, title := extract_title_from_history ?h\<rparr> # post)"
      by blast
    have "?after = snd (update_or_create E ?h (Some x) (conversations w))"
      using after x(1) by simp
    then have a: "?after = pre @ c\<lparr>turns := ?h, title := extract_title_from_history ?h\<rparr> # post"
      by (simp only: h(4) snd_conv)
    then have "length ?after = length (conversations w)" by (simp add: h(1))
    with h(1-3) a show ?thesis by blast
  qed
  have dist: "distinct (map conv_id ?after)"
    if "distinct (map conv_id (conversations w)) \<and> uuid4 E \<notin> conv_id ` set (conversations w)"
    using that update_or_create_ids [of E ?h cid "conversations w"]
    by (auto simp: after new_conv_def)
  from new old dist show ?thesis by blast
qed

theorem jd_reply_core_resolves_witness:
  "conversations (fst (jd_reply_core (example_env []) (lit ''Hi'') False [] None empty_world)) =
     [first_conv] \<and>
   length (conversations (fst (jd_reply_core (example_env []) (lit ''more'') False
       [(lit ''Bye'', lit ''See you'')] (Some (lit ''u2''))
       (empty_world\<lparr>conversations := two_convs\<rparr>)))) = 2 \<and>
   distinct (map conv_id
     (conversations (fst (jd_reply_core (example_env []) (lit ''Hi'') False [] None empty_world))))"
proof -
  have ne1: "strip (lit ''Hi'') \<noteq> []" by (simp add: lit_def strip_def isspace_def)
  have ne2: "strip (lit ''more'') \<noteq> []" by (simp add: lit_def strip_def isspace_def)
  note T1 = jd_reply_core_resolves
    [OF ne1, where E = "example_env []" and ui = "[]" and cid = None and w = empty_world
       and speak = False]
  have u: "uuid4 (example_env []) = lit ''u1''" by (simp add: example_env_def)
  have e: "conversations empty_world = []" by (simp add: empty_world_def)
  from T1 have
    "conversations (fst (jd_reply_core (example_env []) (lit ''Hi'') False [] None empty_world)) =
       conversations empty_world @
          [\<lparr>conv_id = uuid4 (example_env []),
            title = extract_title_from_history
              (updated_history (example_env []) (conversations empty_world) [] (lit ''Hi'')),
            turns = updated_history (example_env []) (conversations empty_world) [] (lit ''Hi'')\<rparr>]"
    by blast
  then have r1:
    "conversations (fst (jd_reply_core (example_env []) (lit ''Hi'') False [] None empty_world)) =
       [first_conv]"
    by (simp add: u e example_history example_chat title_Hi first_conv_def)
  have "Some (lit ''u2'') = Some (lit ''u2'') \<and>
        lit ''u2'' \<in> conv_id ` set (conversations (empty_world\<lparr>conversations := two_convs\<rparr>))"
    by (simp add: two_convs_def)
  with jd_reply_core_resolves
    [OF ne2, where E = "example_env []" and ui = "[(lit ''Bye'', lit ''See you'')]"
       and cid = "Some (lit ''u2'')" and w = "empty_world\<lparr>conversations := two_convs\<rparr>"
       and speak = False and x = "lit ''u2''"]
  have "length (conversations (fst (jd_reply_core (example_env []) (lit ''more'') False
       [(lit ''Bye'', lit ''See you'')] (Some (lit ''u2''))
       (empty_world\<lparr>conversations := two_convs\<rparr>)))) =
     length (conversations (empty_world\<lparr>conversations := two_convs\<rparr>))"
    by blast
  then have r2: "length (conversations (fst (jd_reply_core (example_env []) (lit ''more'') False
       [(lit ''Bye'', lit ''See you'')] (Some (lit ''u2''))
       (empty_world\<lparr>conversations := two_convs\<rparr>)))) = 2"
    by (simp add: two_convs_def)
  have "distinct (map conv_id (conversations empty_world)) \<and>
        uuid4 (example_env []) \<notin> conv_id ` set (conversations empty_world)"
    by (simp add: e)
  with T1 have r3: "distinct (map conv_id
     (conversations (fst (jd_reply_core (example_env []) (lit ''Hi'') False [] None empty_world))))"
    by blast
  show ?thesis by (intro conjI r1 r2 r3)
qed

text \<open>
  Claim C2. When the backend call fails with message \<open>e\<close> on a message that is not
  blank, the pair appended to the session is the stripped user text with the answer
  \<open>Ollama error: e\<close>, and a conversation in memory holds the updated turns. When the
  two file writes go through, the call returns normally with these turns, the
  conversations file holds the whole snapshot with that pair and the flat log has gained
  the record of the pair. An exception can only come from a write that failed, never from
  the backend.
\<close>

theorem jd_reply_core_backend_failure:
  assumes "strip u \<noteq> []"
    and "ollama_chat E (context_messages (conversations w) ui (strip u)) = Inl e"
  shows
  "(\<exists>c\<in>set (conversations (fst (jd_reply_core E u speak ui cid w))).
      turns c = ui @ [(strip u, lit ''Ollama error: '' @ e)]) \<and>
   (conv_write E = Succeeds \<and> flat_write E = Succeeds \<longrightarrow>
      (\<exists>w' i.
         jd_reply_core E u speak ui cid w =
           (w', Inr (ui @ [(strip u, lit ''Ollama error: '' @ e)],
                     if speak then Some (make_tts E (lit ''Ollama error: '' @ e)) else None,
                     Some i, map title (conversations w'))) \<and>
         (\<exists>c\<in>set (conversations w').
            conv_id c = i \<and> turns c = ui @ [(strip u, lit ''Ollama error: '' @ e)]) \<and>
         conv_file w' =
           Some (json_dump E (JArr (map (\<lambda>c. JObj [(lit ''id'', JStr (conv_id c)), (lit ''title'', JStr (title c)),
                               (lit ''turns'',
                                JArr (map (\<lambda>t. JArr [JStr (fst t), JStr (snd t)]) (turns c)))])
                   (conversations w')))) \<and>
         flat_file w' =
           Some ((case flat_file w of None \<Rightarrow> [] | Some old \<Rightarrow> old) @
                 json_dumps E (JObj [(lit ''instruction'', JStr (strip u)),
                                   (lit ''output'', JStr (lit ''Ollama error: '' @ e))]) @ [10]))) \<and>
   (snd (jd_reply_core E u speak ui cid w) = Inl x \<longrightarrow>
      conv_write E \<noteq> Succeeds \<or> flat_write E \<noteq> Succeeds)"
proof -
  let ?err = "lit ''Ollama error: '' @ e"
  let ?h = "updated_history E (conversations w) ui u"
  let ?uc = "update_or_create E ?h cid (conversations w)"
  note ea = error_answer [OF assms(2)]
  from ea have ans: "get_answer E (context_messages (conversations w) ui (strip u)) = ?err"
    by (rule conjunct1)
  from ea have ne: "get_answer E (context_messages (conversations w) ui (strip u)) \<noteq> []"
    by (rule conjunct2)
  have h: "?h = ui @ [(strip u, ?err)]"
    by (simp only: updated_history_def ans)
  from update_or_create_target [of E ?h cid "conversations w"]
  obtain c where c: "c \<in> set (snd ?uc)" "conv_id c = fst ?uc" "turns c = ?h" by blast
  have after: "conversations (fst (jd_reply_core E u speak ui cid w)) = snd ?uc"
    using assms(1) by (rule jd_reply_core_conversations)
  have p1: "\<exists>c\<in>set (conversations (fst (jd_reply_core E u speak ui cid w))).
      turns c = ui @ [(strip u, ?err)]"
    using c(1,3) by (auto simp only: after h)
  have p2: "\<exists>w' i.
         jd_reply_core E u speak ui cid w =
           (w', Inr (ui @ [(strip u, ?err)],
                     if speak then Some (make_tts E ?err) else None,
                     Some i, map title (conversations w'))) \<and>
         (\<exists>c\<in>set (conversations w').
            conv_id c = i \<and> turns c = ui @ [(strip u, ?err)]) \<and>
         conv_file w' =
           Some (json_dump E (JArr (map (\<lambda>c. JObj [(lit ''id'', JStr (conv_id c)), (lit ''title'', JStr (title c)),
                               (lit ''turns'',
                                JArr (map (\<lambda>t. JArr [JStr (fst t), JStr (snd t)]) (turns c)))])
                   (conversations w')))) \<and>
         flat_file w' =
           Some ((case flat_file w of None \<Rightarrow> [] | Some old \<Rightarrow> old) @
                 json_dumps E (JObj [(lit ''instruction'', JStr (strip u)),
                                   (lit ''output'', JStr ?err)]) @ [10])"
    if ok: "conv_write E = Succeeds \<and> flat_write E = Succeeds"
  proof -
    from ok have s: "conv_write E = Succeeds" and f: "flat_write E = Succeeds" by simp_all
    note run = jd_reply_core_ok [OF assms(1) s f ne, of speak cid]
    let ?w' = "fst (jd_reply_core E u speak ui cid w)"
    have a: "jd_reply_core E u speak ui cid w =
           (?w', Inr (ui @ [(strip u, ?err)],
                     if speak then Some (make_tts E ?err) else None,
                     Some (fst ?uc), map title (conversations ?w')))"
      by (simp add: run ans h [symmetric])
    have b: "\<exists>c\<in>set (conversations ?w'). conv_id c = fst ?uc \<and> turns c = ui @ [(strip u, ?err)]"
      using c by (auto simp only: after h)
    have dict: "conv_dict = (\<lambda>c. JObj [(lit ''id'', JStr (conv_id c)), (lit ''title'', JStr (title c)),
                               (lit ''turns'',
                                JArr (map (\<lambda>t. JArr [JStr (fst t), JStr (snd t)]) (turns c)))])"
      by (rule ext) (simp add: conv_dict_def turn_list_def prod_eq_iff cong: map_cong)
    have d: "conv_file ?w' =
           Some (json_dump E (JArr (map (\<lambda>c. JObj [(lit ''id'', JStr (conv_id c)), (lit ''title'', JStr (title c)),
                               (lit ''turns'',
                                JArr (map (\<lambda>t. JArr [JStr (fst t), JStr (snd t)]) (turns c)))])
                   (conversations ?w'))))"
      unfolding dict [symmetric] by (simp add: run)
    have g: "flat_file ?w' =
           Some ((case flat_file w of None \<Rightarrow> [] | Some old \<Rightarrow> old) @
                 json_dumps E (JObj [(lit ''instruction'', JStr (strip u)),
                                   (lit ''output'', JStr ?err)]) @ [10])"
      by (simp add: run ans flat_record_def)
    from a b d g show ?thesis by blast
  qed
  have p3: "conv_write E \<noteq> Succeeds \<or> flat_write E \<noteq> Succeeds"
    if "snd (jd_reply_core E u speak ui cid w) = Inl x"
  proof (rule ccontr)
    assume "\<not> (conv_write E \<noteq> Succeeds \<or> flat_write E \<noteq> Succeeds)"
    then have "conv_write E = Succeeds \<and> flat_write E = Succeeds" by simp
    from p2 [OF this] that show False by auto
  qed
  from p1 p2 p3 show ?thesis by blast
qed

theorem jd_reply_core_backend_failure_witness:
  "jd_reply_core (example_env []) (lit ''Hi'') False [] None empty_world =
     (\<lparr>conversations = [first_conv],
       conv_file =
         Some (lit ''[{'' @ dq ''id'' @ lit '': '' @ dq ''u1'' @ lit '', '' @
                   dq ''title'' @ lit '': '' @ dq ''Hi'' @ lit '', '' @
                   dq ''turns'' @ lit '': [['' @ dq ''Hi'' @ lit '', '' @
                   dq ''Ollama error: down'' @ lit '']]}]''),
       flat_file =
         Some (lit ''{'' @ dq ''instruction'' @ lit '': '' @ dq ''Hi'' @ lit '', '' @
                   dq ''output'' @ lit '': '' @ dq ''Ollama error: down'' @ lit ''}'' @ [10])\<rparr>,
      Inr ([(lit ''Hi'', lit ''Ollama error: down'')], None, Some (lit ''u1''), [lit ''Hi'']))"
proof -
  let ?E = "example_env []"
  have ne: "strip (lit ''Hi'') \<noteq> []" by (simp add: lit_def strip_def isspace_def)
  have down: "ollama_chat ?E (context_messages (conversations empty_world) [] (strip (lit ''Hi'')))
                = Inl (lit ''down'')"
    by (simp add: example_env_def)
  have ok: "conv_write ?E = Succeeds \<and> flat_write ?E = Succeeds"
    by (simp add: example_env_def)
  have err: "lit ''Ollama error: '' @ lit ''down'' = lit ''Ollama error: down''"
    by (simp add: lit_def)
  from jd_reply_core_backend_failure [OF ne down, where speak = False and cid = None] ok
  obtain w' i where
    run: "jd_reply_core ?E (lit ''Hi'') False [] None empty_world =
           (w', Inr ([] @ [(strip (lit ''Hi''), lit ''Ollama error: '' @ lit ''down'')],
                     if False then Some (make_tts ?E (lit ''Ollama error: '' @ lit ''down'')) else None,
                     Some i, map title (conversations w')))"
    and target: "\<exists>c\<in>set (conversations w'). conv_id c = i \<and>
                   turns c = [] @ [(strip (lit ''Hi''), lit ''Ollama error: '' @ lit ''down'')]"
    and cf: "conv_file w' =
           Some (json_dump ?E (JArr (map (\<lambda>c. JObj [(lit ''id'', JStr (conv_id c)), (lit ''title'', JStr (title c)),
                               (lit ''turns'',
                                JArr (map (\<lambda>t. JArr [JStr (fst t), JStr (snd t)]) (turns c)))])
                   (conversations w'))))"
    and ff: "flat_file w' =
           Some ((case flat_file empty_world of None \<Rightarrow> [] | Some old \<Rightarrow> old) @
                 json_dumps ?E (JObj [(lit ''instruction'', JStr (strip (lit ''Hi''))),
                                      (lit ''output'', JStr (lit ''Ollama error: '' @ lit ''down''))])
                 @ [10])"
    by blast
  have "conversations (fst (jd_reply_core ?E (lit ''Hi'') False [] None empty_world)) = [first_conv]"
    by (rule example_after) (simp_all add: example_env_def)
  then have cs: "conversations w' = [first_conv]" by (simp add: run)
  from target cs have i: "i = lit ''u1''" by (simp add: first_conv_def)
  from cf have cf': "conv_file w' =
      Some (lit ''[{'' @ dq ''id'' @ lit '': '' @ dq ''u1'' @ lit '', '' @
                   dq ''title'' @ lit '': '' @ dq ''Hi'' @ lit '', '' @
                   dq ''turns'' @ lit '': [['' @ dq ''Hi'' @ lit '', '' @
                   dq ''Ollama error: down'' @ lit '']]}]'')"
    unfolding cs by (simp add: example_env_def first_conv_def lit_def dq_def)
  from ff have ff': "flat_file w' =
      Some (lit ''{'' @ dq ''instruction'' @ lit '': '' @ dq ''Hi'' @ lit '', '' @
                   dq ''output'' @ lit '': '' @ dq ''Ollama error: down'' @ lit ''}'' @ [10])"
    by (simp add: example_env_def empty_world_def strip_Hi) (simp add: lit_def dq_def)
  from cs cf' ff' have w': "w' = \<lparr>conversations = [first_conv],
       conv_file =
         Some (lit ''[{'' @ dq ''id'' @ lit '': '' @ dq ''u1'' @ lit '', '' @
                   dq ''title'' @ lit '': '' @ dq ''Hi'' @ lit '', '' @
                   dq ''turns'' @ lit '': [['' @ dq ''Hi'' @ lit '', '' @
                   dq ''Ollama error: down'' @ lit '']]}]''),
       flat_file =
         Some (lit ''{'' @ dq ''instruction'' @ lit '': '' @ dq ''Hi'' @ lit '', '' @
                   dq ''output'' @ lit '': '' @ dq ''Ollama error: down'' @ lit ''}'' @ [10])\<rparr>"
    by (cases w') simp
  have t: "title first_conv = lit ''Hi''" by (simp add: first_conv_def)
  show ?thesis
    unfolding run w' [symmetric] by (simp add: i cs t strip_Hi err)
qed

text \<open>
  Claim C3, as the specification states it, fails: with a backend that is down and a
  flat log that cannot be appended to, \<open>jd_reply_core\<close> raises \<open>OSError\<close>.
\<close>

theorem jd_reply_core_log_failure_counterexample:
  "flat_write failing_log_env = Fails None \<and>
   snd (jd_reply_core failing_log_env (lit ''Hi'') False [] None empty_world) = Inl OSError"
proof -
  have ne: "strip (lit ''Hi'') \<noteq> []" by (simp add: lit_def strip_def isspace_def)
  have "get_answer failing_log_env
          (context_messages (conversations empty_world) [] (strip (lit ''Hi''))) \<noteq> []"
    by (simp add: down_answer example_chat lit_def)
  from jd_reply_core_log_fails [OF ne _ _ this, of None False None]
  show ?thesis by (simp add: failing_log_env_def example_env_def)
qed

text \<open>
  Claim C3, amended. \<open>log_flat_pair\<close> has no handler and \<open>jd_reply_core\<close> calls it
  unguarded: when the append fails, the exception reaches the caller, after the
  conversations in memory have been updated and the conversations file has been
  written. Only when the answer is empty, so that nothing is appended, does the call
  return normally and leave the flat log alone.
\<close>

theorem jd_reply_core_log_failure:
  assumes "strip u \<noteq> []" and "conv_write E = Succeeds" and "flat_write E = Fails left"
  shows
  "(get_answer E (context_messages (conversations w) ui (strip u)) \<noteq> [] \<longrightarrow>
      snd (jd_reply_core E u speak ui cid w) = Inl OSError \<and>
      conversations (fst (jd_reply_core E u speak ui cid w)) =
        snd (update_or_create E (updated_history E (conversations w) ui u) cid (conversations w)) \<and>
      conv_file (fst (jd_reply_core E u speak ui cid w)) =
        Some (json_dump E (JArr (map conv_dict
               (conversations (fst (jd_reply_core E u speak ui cid w)))))) \<and>
      flat_file (fst (jd_reply_core E u speak ui cid w)) = left) \<and>
   (get_answer E (context_messages (conversations w) ui (strip u)) = [] \<longrightarrow>
      (\<exists>r. snd (jd_reply_core E u speak ui cid w) = Inr r) \<and>
      flat_file (fst (jd_reply_core E u speak ui cid w)) = flat_file w)"
proof (intro conjI impI)
  assume ne: "get_answer E (context_messages (conversations w) ui (strip u)) \<noteq> []"
  note run = jd_reply_core_log_fails [OF assms ne, of speak cid]
  show "snd (jd_reply_core E u speak ui cid w) = Inl OSError" by (simp add: run)
  show "conversations (fst (jd_reply_core E u speak ui cid w)) =
        snd (update_or_create E (updated_history E (conversations w) ui u) cid (conversations w))"
    by (simp add: run)
  show "conv_file (fst (jd_reply_core E u speak ui cid w)) =
        Some (json_dump E (JArr (map conv_dict
               (conversations (fst (jd_reply_core E u speak ui cid w))))))"
    by (simp add: run)
  show "flat_file (fst (jd_reply_core E u speak ui cid w)) = left" by (simp add: run)
next
  assume e: "get_answer E (context_messages (conversations w) ui (strip u)) = []"
  note run = jd_reply_core_not_logged [OF assms(1,2) e, of speak cid]
  show "\<exists>r. snd (jd_reply_core E u speak ui cid w) = Inr r" by (simp add: run)
  show "flat_file (fst (jd_reply_core E u speak ui cid w)) = flat_file w" by (simp add: run)
qed

theorem jd_reply_core_log_failure_witness:
  "snd (jd_reply_core failing_log_env (lit ''Hi'') True [] None empty_world) = Inl OSError \<and>
   conversations (fst (jd_reply_core failing_log_env (lit ''Hi'') True [] None empty_world)) =
     [first_conv] \<and>
   conv_file (fst (jd_reply_core failing_log_env (lit ''Hi'') True [] None empty_world)) =
     Some (json_text (JArr [conv_dict first_conv])) \<and>
   flat_file (fst (jd_reply_core failing_log_env (lit ''Hi'') True [] None empty_world)) = None \<and>
   flat_file (fst (jd_reply_core silent_env (lit ''Hi'') True [] None empty_world)) = None"
proof -
  have ne: "strip (lit ''Hi'') \<noteq> []" by (simp add: lit_def strip_def isspace_def)
  have cw: "conv_write failing_log_env = Succeeds" "conv_write silent_env = Succeeds"
    by (simp_all add: failing_log_env_def silent_env_def example_env_def)
  have fw: "flat_write failing_log_env = Fails None" "flat_write silent_env = Fails None"
    by (simp_all add: failing_log_env_def silent_env_def)
  have ans: "get_answer failing_log_env
          (context_messages (conversations empty_world) [] (strip (lit ''Hi''))) \<noteq> []"
    by (simp add: down_answer example_chat lit_def)
  have sil: "get_answer silent_env
          (context_messages (conversations empty_world) [] (strip (lit ''Hi''))) = []"
    by (simp add: get_answer_def silent_env_def)
  note T = jd_reply_core_log_failure
    [OF ne cw(1) fw(1), where speak = True and ui = "[]" and cid = None and w = empty_world]
  from T ans have r1:
    "snd (jd_reply_core failing_log_env (lit ''Hi'') True [] None empty_world) = Inl OSError"
    by blast
  have r2:
    "conversations (fst (jd_reply_core failing_log_env (lit ''Hi'') True [] None empty_world)) =
       [first_conv]"
    by (rule example_after) (simp_all add: failing_log_env_def example_env_def)
  from T ans have
    "conv_file (fst (jd_reply_core failing_log_env (lit ''Hi'') True [] None empty_world)) =
       Some (json_dump failing_log_env (JArr (map conv_dict
         (conversations (fst (jd_reply_core failing_log_env (lit ''Hi'') True [] None empty_world))))))"
    by blast
  moreover have "json_dump failing_log_env = json_text"
    by (simp add: failing_log_env_def example_env_def)
  ultimately have r3:
    "conv_file (fst (jd_reply_core failing_log_env (lit ''Hi'') True [] None empty_world)) =
       Some (json_text (JArr [conv_dict first_conv]))"
    by (simp only: r2 list.map)
  from T ans have r4:
    "flat_file (fst (jd_reply_core failing_log_env (lit ''Hi'') True [] None empty_world)) = None"
    by blast
  from jd_reply_core_log_failure
    [OF ne cw(2) fw(2), where speak = True and ui = "[]" and cid = None and w = empty_world] sil
  have "flat_file (fst (jd_reply_core silent_env (lit ''Hi'') True [] None empty_world)) =
          flat_file empty_world"
    by blast
  then have r5:
    "flat_file (fst (jd_reply_core silent_env (lit ''Hi'') True [] None empty_world)) = None"
    by (simp add: empty_world_def)
  show ?thesis by (intro conjI r1 r2 r3 r4 r5)
qed

section \<open>Selecting a topic by its title\<close>

lemma find_by_title_none:
  "\<forall>c\<in>set convs. title c \<noteq> t \<Longrightarrow> find_by_title t convs = ([], None)"
  by (induction convs) auto

lemma find_by_title_first:
  "\<exists>c\<in>set convs. title c = t \<Longrightarrow>
   \<exists>pre c post. convs = pre @ c # post \<and> (\<forall>d\<in>set pre. title d \<noteq> t) \<and> title c = t \<and>
      find_by_title t convs = (turns c, Some (conv_id c))"
proof (induction convs)
  case Nil
  then show ?case by simp
next
  case (Cons a convs)
  show ?case
  proof (cases "title a = t")
    case True
    then have "a # convs = [] @ a # convs \<and> (\<forall>d\<in>set []. title d \<noteq> t) \<and> title a = t \<and>
      find_by_title t (a # convs) = (turns a, Some (conv_id a))" by simp
    then show ?thesis by blast
  next
    case False
    with Cons.prems have "\<exists>c\<in>set convs. title c = t" by simp
    from Cons.IH [OF this] obtain pre c post where
      h: "convs = pre @ c # post" "\<forall>d\<in>set pre. title d \<noteq> t" "title c = t"
         "find_by_title t convs = (turns c, Some (conv_id c))" by blast
    with False have "a # convs = (a # pre) @ c # post \<and> (\<forall>d\<in>set (a # pre). title d \<noteq> t) \<and>
      title c = t \<and> find_by_title t (a # convs) = (turns c, Some (conv_id c))" by simp
    then show ?thesis by blast
  qed
qed

lemma find_by_title_distinct:
  "distinct (map title convs) \<Longrightarrow> c \<in> set convs \<Longrightarrow>
     find_by_title (title c) convs = (turns c, Some (conv_id c))"
proof (induction convs)
  case Nil
  then show ?case by simp
next
  case (Cons a convs)
  show ?case
  proof (cases "title a = title c")
    case True
    with Cons.prems have "a = c" by (auto simp: image_iff)
    then show ?thesis by simp
  next
    case False
    with Cons show ?thesis by auto
  qed
qed

lemma extract_title_not_Nil: "extract_title_from_history history \<noteq> []"
proof (cases history)
  case Nil
  then show ?thesis by (simp add: extract_title_from_history_def lit_new_chat)
next
  case (Cons t ts)
  show ?thesis
  proof (cases "strip (fst t) = []")
    case True
    with Cons show ?thesis by (simp add: extract_title_from_history_def lit_new_chat)
  next
    case False
    then have "join (lit '' '') (take 10 (str_split (fst t))) \<noteq> []"
      by (rule title_words_not_Nil)
    with Cons False show ?thesis
      by (simp add: extract_title_from_history_def Let_def str_split_strip)
  qed
qed

lemma update_or_create_titles:
  assumes "\<forall>c\<in>set convs. title c \<noteq> []"
  shows "\<forall>c\<in>set (snd (update_or_create E h cid convs)). title c \<noteq> []"
proof (cases "cid = None \<or> (\<forall>c\<in>set convs. Some (conv_id c) \<noteq> cid)")
  case True
  then show ?thesis
    using assms by (simp add: update_or_create_new new_conv_def extract_title_not_Nil)
next
  case False
  then obtain x where x: "cid = Some x" "x \<in> conv_id ` set convs" by auto
  from update_or_create_existing [OF x(2), of E h] obtain pre c post where
    d: "convs = pre @ c # post"
       "update_or_create E h (Some x) convs =
          (x, pre @ c\<lparr>turns := h, title := extract_title_from_history h\<rparr> # post)"
    by blast
  from assms d(1) have "\<forall>c\<in>set pre \<union> set post. title c \<noteq> []" by auto
  then show ?thesis
    by (auto simp: x(1) d(2) extract_title_not_Nil)
qed

lemma jd_reply_core_titles:
  assumes "\<forall>c\<in>set (conversations w). title c \<noteq> []"
  shows "\<forall>c\<in>set (conversations (fst (jd_reply_core E u speak ui cid w))). title c \<noteq> []"
proof (cases "strip u = []")
  case True
  then have "jd_reply_core E u speak ui cid w =
      (w, Inr (ui, None, cid, map title (conversations w)))"
    by (simp add: jd_reply_core_def)
  with assms show ?thesis by simp
next
  case False
  from jd_reply_core_conversations [OF False, of E speak ui cid w]
    update_or_create_titles [OF assms]
  show ?thesis by simp
qed

text \<open>
  Claim C6. \<open>load_conversation_by_title\<close> returns no turns and no id when the title is
  empty or matches no conversation; otherwise it returns the turns and id of the first
  conversation with that title. In the data model the title of a conversation is never
  empty: the title deriver never returns the empty string, and \<open>jd_reply_core\<close>
  keeps every title of the snapshot non-empty, as the lemmas above show. So in a snapshot
  with pairwise distinct titles, every conversation is found by its title, with its own
  turns and id.
\<close>

theorem load_conversation_by_title_spec:
  "((t = [] \<or> (\<forall>c\<in>set convs. title c \<noteq> t)) \<longrightarrow>
      load_conversation_by_title convs t = ([], None)) \<and>
   (t \<noteq> [] \<and> (\<exists>c\<in>set convs. title c = t) \<longrightarrow>
      (\<exists>pre c post. convs = pre @ c # post \<and> (\<forall>d\<in>set pre. title d \<noteq> t) \<and> title c = t \<and>
         load_conversation_by_title convs t = (turns c, Some (conv_id c)))) \<and>
   (distinct (map title convs) \<and> c \<in> set convs \<and> title c \<noteq> [] \<longrightarrow>
      load_conversation_by_title convs (title c) = (turns c, Some (conv_id c)))"
proof (intro conjI impI)
  show "load_conversation_by_title convs t = ([], None)"
    if "t = [] \<or> (\<forall>c\<in>set convs. title c \<noteq> t)"
    using that by (auto simp: load_conversation_by_title_def find_by_title_none)
  show "\<exists>pre c post. convs = pre @ c # post \<and> (\<forall>d\<in>set pre. title d \<noteq> t) \<and> title c = t \<and>
         load_conversation_by_title convs t = (turns c, Some (conv_id c))"
    if "t \<noteq> [] \<and> (\<exists>c\<in>set convs. title c = t)"
    using that find_by_title_first [of convs t] by (simp add: load_conversation_by_title_def)
  show "load_conversation_by_title convs (title c) = (turns c, Some (conv_id c))"
    if "distinct (map title convs) \<and> c \<in> set convs \<and> title c \<noteq> []"
    using that by (simp add: load_conversation_by_title_def find_by_title_distinct)
qed

theorem load_conversation_by_title_spec_witness:
  "load_conversation_by_title two_convs [] = ([], None) \<and>
   load_conversation_by_title two_convs (lit ''Nope'') = ([], None) \<and>
   load_conversation_by_title two_convs (lit ''Bye'') =
     ([(lit ''Bye'', lit ''See you'')], Some (lit ''u2''))"
proof -
  let ?c = "\<lparr>conv_id = lit ''u2'', title = lit ''Bye'', turns = [(lit ''Bye'', lit ''See you'')]\<rparr>"
  note T = load_conversation_by_title_spec
  have r1: "load_conversation_by_title two_convs [] = ([], None)"
    using T [where t = "[]" and convs = two_convs] by blast
  have "\<forall>c\<in>set two_convs. title c \<noteq> lit ''Nope''"
    by (simp add: two_convs_def lit_def)
  then have r2: "load_conversation_by_title two_convs (lit ''Nope'') = ([], None)"
    using T [where t = "lit ''Nope''" and convs = two_convs] by blast
  have "distinct (map title two_convs) \<and> ?c \<in> set two_convs \<and> title ?c \<noteq> []"
    by (simp add: two_convs_def lit_def)
  then have "load_conversation_by_title two_convs (title ?c) = (turns ?c, Some (conv_id ?c))"
    using T [where c = ?c and convs = two_convs] by blast
  then have r3: "load_conversation_by_title two_convs (lit ''Bye'') =
     ([(lit ''Bye'', lit ''See you'')], Some (lit ''u2''))" by simp
  show ?thesis by (intro conjI r1 r2 r3)
qed

section \<open>Saving and loading again\<close>







section \<open>Selecting a topic in the interface\<close>

lemma find_by_title_id:
  "find_by_title t convs = (full, Some i) \<Longrightarrow> i \<in> conv_id ` set convs"
  by (induction convs) (auto split: if_splits)

lemma load_conversation_by_title_id:
  "load_conversation_by_title convs t = (full, Some i) \<Longrightarrow> t \<noteq> [] \<and> i \<in> conv_id ` set convs"
  by (auto simp: load_conversation_by_title_def dest: find_by_title_id split: if_splits)

lemma jd_reply_core_saved:
  assumes "strip u \<noteq> []" and "conv_write E = Succeeds"
  shows "conv_file (fst (jd_reply_core E u speak ui cid w)) =
           Some (json_dump E (JArr (map conv_dict
                  (conversations (fst (jd_reply_core E u speak ui cid w))))))"
proof (cases "get_answer E (context_messages (conversations w) ui (strip u)) = []")
  case True
  from jd_reply_core_not_logged [OF assms True, of speak cid] show ?thesis by simp
next
  case False
  show ?thesis
  proof (cases "flat_write E")
    case Succeeds
    from jd_reply_core_ok [OF assms Succeeds False, of speak cid] show ?thesis by simp
  next
    case (Fails left)
    from jd_reply_core_log_fails [OF assms Fails False, of speak cid] show ?thesis by simp
  qed
qed

text \<open>
  Claim C10. When the title selected in the interface matches a conversation with more
  than five turns, \<open>on_select_topic\<close> returns that conversation's id and only its last
  five turns, a proper suffix of its turns. A message sent next with this history and id
  overwrites the turns of the conversation with that id by these five turns and the new
  pair, six turns in all, adds no conversation, and the file written holds that snapshot.
\<close>

theorem on_select_topic_last_five:
  assumes "load_conversation_by_title convs t = (full, Some i)" and "length full > 5"
  shows
  "on_select_topic convs (Some t) = (drop (length full - 5) full, Some i) \<and>
   length (fst (on_select_topic convs (Some t))) = 5 \<and>
   (\<exists>older. older \<noteq> [] \<and> full = older @ fst (on_select_topic convs (Some t))) \<and>
   (strip u \<noteq> [] \<and> conversations w = convs \<longrightarrow>
      (\<exists>c\<in>set (conversations (fst (jd_reply_core E u speak
                  (fst (on_select_topic convs (Some t))) (snd (on_select_topic convs (Some t))) w))).
          conv_id c = i \<and>
          turns c = updated_history E convs (drop (length full - 5) full) u \<and>
          length (turns c) = 6) \<and>
      length (conversations (fst (jd_reply_core E u speak
                  (fst (on_select_topic convs (Some t))) (snd (on_select_topic convs (Some t))) w)))
        = length convs \<and>
      (conv_write E = Succeeds \<longrightarrow>
         conv_file (fst (jd_reply_core E u speak
                  (fst (on_select_topic convs (Some t))) (snd (on_select_topic convs (Some t))) w)) =
           Some (json_dump E (JArr (map conv_dict (conversations (fst (jd_reply_core E u speak
                  (fst (on_select_topic convs (Some t))) (snd (on_select_topic convs (Some t))) w))))))))"
proof -
  let ?five = "drop (length full - 5) full"
  from load_conversation_by_title_id [OF assms(1)]
  have t: "t \<noteq> []" and i: "i \<in> conv_id ` set convs" by simp_all
  have sel: "on_select_topic convs (Some t) = (?five, Some i)"
    using t assms(1) by (simp add: on_select_topic_def last_n_def)
  have len: "length (fst (on_select_topic convs (Some t))) = 5"
    using assms(2) by (simp add: sel)
  have "take (length full - 5) full \<noteq> []" using assms(2) by auto
  moreover have "full = take (length full - 5) full @ fst (on_select_topic convs (Some t))"
    by (simp add: sel)
  ultimately have suf: "\<exists>older. older \<noteq> [] \<and> full = older @ fst (on_select_topic convs (Some t))"
    by blast
  have upd: "(\<exists>c\<in>set (conversations (fst (jd_reply_core E u speak ?five (Some i) w))).
          conv_id c = i \<and> turns c = updated_history E convs ?five u \<and> length (turns c) = 6) \<and>
      length (conversations (fst (jd_reply_core E u speak ?five (Some i) w))) = length convs \<and>
      (conv_write E = Succeeds \<longrightarrow>
         conv_file (fst (jd_reply_core E u speak ?five (Some i) w)) =
           Some (json_dump E (JArr (map conv_dict
                  (conversations (fst (jd_reply_core E u speak ?five (Some i) w)))))))"
    if h: "strip u \<noteq> [] \<and> conversations w = convs"
  proof -
    from h have ne: "strip u \<noteq> []" and w: "conversations w = convs" by simp_all
    let ?h = "updated_history E convs ?five u"
    have after: "conversations (fst (jd_reply_core E u speak ?five (Some i) w)) =
                   snd (update_or_create E ?h (Some i) convs)"
      using jd_reply_core_conversations [OF ne, of E speak ?five "Some i" w] by (simp add: w)
    from update_or_create_existing [OF i, of E ?h] obtain pre c post where
      d: "convs = pre @ c # post" "conv_id c = i"
         "update_or_create E ?h (Some i) convs =
            (i, pre @ c\<lparr>turns := ?h, title := extract_title_from_history ?h\<rparr> # post)"
      by blast
    have a: "conversations (fst (jd_reply_core E u speak ?five (Some i) w)) =
               pre @ c\<lparr>turns := ?h, title := extract_title_from_history ?h\<rparr> # post"
      by (simp only: after d(3) snd_conv)
    have l6: "length ?h = 6" using assms(2) by (simp add: updated_history_def)
    have p1: "\<exists>c\<in>set (conversations (fst (jd_reply_core E u speak ?five (Some i) w))).
          conv_id c = i \<and> turns c = ?h \<and> length (turns c) = 6"
      unfolding a using d(2) l6 by simp
    have p2: "length (conversations (fst (jd_reply_core E u speak ?five (Some i) w))) = length convs"
      unfolding a by (simp add: d(1))
    have p3: "conv_file (fst (jd_reply_core E u speak ?five (Some i) w)) =
           Some (json_dump E (JArr (map conv_dict
                  (conversations (fst (jd_reply_core E u speak ?five (Some i) w))))))"
      if "conv_write E = Succeeds"
      using ne that by (rule jd_reply_core_saved)
    from p1 p2 p3 show ?thesis by blast
  qed
  from sel len suf upd show ?thesis by (simp only: sel fst_conv snd_conv) blast
qed

theorem on_select_topic_last_five_witness:
  "on_select_topic [long_conv] (Some (lit ''0'')) =
     (map (\<lambda>i. ([48 + i], [65 + i])) [55..<60], Some (lit ''u1'')) \<and>
   length (fst (on_select_topic [long_conv] (Some (lit ''0'')))) = 5 \<and>
   length (conversations (fst (jd_reply_core (example_env []) (lit ''Hi'') False
       (fst (on_select_topic [long_conv] (Some (lit ''0''))))
       (snd (on_select_topic [long_conv] (Some (lit ''0''))))
       (empty_world\<lparr>conversations := [long_conv]\<rparr>)))) = 1"
proof -
  have f: "title long_conv = lit ''0''" "conv_id long_conv = lit ''u1''"
    "turns long_conv = map (\<lambda>i. ([48 + i], [65 + i])) [0..<60]"
    by (simp_all add: long_conv_def)
  have z: "lit ''0'' \<noteq> []" by (simp add: lit_def)
  have ld: "load_conversation_by_title [long_conv] (lit ''0'') = (turns long_conv, Some (lit ''u1''))"
    by (simp add: load_conversation_by_title_def z f(1,2))
  have n: "length (turns long_conv) > 5" by (simp add: f(3))
  have ne: "strip (lit ''Hi'') \<noteq> [] \<and>
            conversations (empty_world\<lparr>conversations := [long_conv]\<rparr>) = [long_conv]"
    by (simp add: lit_def strip_def isspace_def)
  note T = on_select_topic_last_five
    [OF ld n, where u = "lit ''Hi''" and w = "empty_world\<lparr>conversations := [long_conv]\<rparr>"
       and E = "example_env []" and speak = False]
  from T have "on_select_topic [long_conv] (Some (lit ''0'')) =
      (drop (length (turns long_conv) - 5) (turns long_conv), Some (lit ''u1''))"
    by blast
  moreover have "drop (length (turns long_conv) - 5) (turns long_conv) =
      map (\<lambda>i. ([48 + i], [65 + i])) [55..<60]"
    by (simp add: f(3) drop_map)
  ultimately have r1: "on_select_topic [long_conv] (Some (lit ''0'')) =
     (map (\<lambda>i. ([48 + i], [65 + i])) [55..<60], Some (lit ''u1''))"
    by (simp only:)
  from T have r2: "length (fst (on_select_topic [long_conv] (Some (lit ''0'')))) = 5"
    by blast
  from T ne have "length (conversations (fst (jd_reply_core (example_env []) (lit ''Hi'') False
       (fst (on_select_topic [long_conv] (Some (lit ''0''))))
       (snd (on_select_topic [long_conv] (Some (lit ''0''))))
       (empty_world\<lparr>conversations := [long_conv]\<rparr>)))) = length [long_conv]"
    by blast
  then have r3: "length (conversations (fst (jd_reply_core (example_env []) (lit ''Hi'') False
       (fst (on_select_topic [long_conv] (Some (lit ''0''))))
       (snd (on_select_topic [long_conv] (Some (lit ''0''))))
       (empty_world\<lparr>conversations := [long_conv]\<rparr>)))) = 1"
    by simp
  show ?thesis by (intro conjI r1 r2 r3)
qed

end
